theory Spec2Isabelle
  imports Complex_Main
begin

section \<open>Numbers and arrays\<close>

text \<open>
  The program computes with NumPy and Torch arrays of 64-bit floats. The model reads a
  finite float as a \<^typ>\<open>real\<close> (rounding, overflow and underflow are outside the model)
  and keeps the three special values that the program's own divisions and exponentials can
  produce from finite operands: dividing by zero does not raise in NumPy, it yields an
  infinity or NaN.
\<close>

type_synonym vec = "real list"
type_synonym matrix = "real list list"

datatype npfloat = Num real | PInf | NInf | NaN

text \<open>
  \<open>a / b\<close> on finite floats. Every divisor of the program that can be zero is a square
  or a sum of non-negative numbers, hence \<open>+0.0\<close>: the quotient is NaN for \<open>0 / 0\<close> and an
  infinity of the sign of the numerator otherwise.
\<close>

definition np_div :: "real \<Rightarrow> real \<Rightarrow> npfloat" where
  "np_div a b =
     (if b \<noteq> 0 then Num (a / b)
      else if a = 0 then NaN
      else if 0 < a then PInf else NInf)"

fun np_neg :: "npfloat \<Rightarrow> npfloat" where
  "np_neg (Num r) = Num (- r)"
| "np_neg PInf = NInf"
| "np_neg NInf = PInf"
| "np_neg NaN = NaN"

fun np_add :: "npfloat \<Rightarrow> npfloat \<Rightarrow> npfloat" where
  "np_add NaN _ = NaN"
| "np_add _ NaN = NaN"
| "np_add (Num a) (Num b) = Num (a + b)"
| "np_add PInf NInf = NaN"
| "np_add NInf PInf = NaN"
| "np_add PInf _ = PInf"
| "np_add _ PInf = PInf"
| "np_add NInf _ = NInf"
| "np_add _ NInf = NInf"

definition np_sum :: "npfloat list \<Rightarrow> npfloat" where
  "np_sum xs = foldl np_add (Num 0) xs"

fun np_exp :: "npfloat \<Rightarrow> npfloat" where
  "np_exp (Num r) = Num (exp r)"
| "np_exp PInf = PInf"
| "np_exp NInf = Num 0"
| "np_exp NaN = NaN"

text \<open>\<open>v > t\<close> for a float \<open>v\<close> and a finite threshold \<open>t\<close>: false on NaN.\<close>

fun np_gt :: "npfloat \<Rightarrow> real \<Rightarrow> bool" where
  "np_gt (Num r) t = (t < r)"
| "np_gt PInf t = True"
| "np_gt NInf t = False"
| "np_gt NaN t = False"

section \<open>Pairwise geometry kernels (inference/spatial\_embeddings.py)\<close>

text \<open>
  \<open>np.sum(np.power(x - centroid, 2), axis=1)\<close>: the squared distance of every row of
  \<open>x\<close> from the centroid. The rows of an array and a centroid taken from it have one
  dimension.
\<close>

definition sq_dist :: "vec \<Rightarrow> vec \<Rightarrow> real" where
  "sq_dist row centroid = sum_list (map2 (\<lambda>a c. (a - c)\<^sup>2) row centroid)"

text \<open>
  \<open>probs = np.exp(-dists / (2.0 * sigma**2))\<close>. The square is taken over the reals, so the
  divisor is zero only for \<open>sigma = 0\<close>. On floats \<open>sigma**2\<close> also underflows to \<open>0.0\<close> for
  a tiny non-zero margin (\<open>1e-200\<close>) and overflows to an infinity for a huge one: such
  margins are outside this definition, which is used below at concrete margins whose
  squares are exact or far from both ends of the float range. The statements about the
  decoder for all inputs take the kernel as a parameter and constrain its values instead.
\<close>

definition gaussian_kernel :: "vec \<Rightarrow> real \<Rightarrow> matrix \<Rightarrow> npfloat list" where
  "gaussian_kernel centroid sigma x =
     map (\<lambda>row. let dists = sq_dist row centroid
                 in np_exp (np_div (- dists) (2 * sigma\<^sup>2))) x"

text \<open>
  \<open>dists = np.power(x - centroid, 2) / (2.0 * sigma**2)\<close>, then
  \<open>probs = np.exp(-np.sum(-dists, axis=1))\<close>: the source negates twice.
\<close>

definition ellipsoidal_kernel :: "vec \<Rightarrow> vec \<Rightarrow> matrix \<Rightarrow> npfloat list" where
  "ellipsoidal_kernel centroid sigma x =
     map (\<lambda>row.
        let dists = map2 (\<lambda>(a, c) s. np_div ((a - c)\<^sup>2) (2 * s\<^sup>2)) (zip row centroid) sigma
        in np_exp (np_neg (np_sum (map np_neg dists)))) x"

section \<open>F-score of the evaluation harness (main\_loop)\<close>

text \<open>\<open>fscore = 2 * (purity * efficiency) / (purity + efficiency)\<close>, on NumPy floats.\<close>

definition fscore :: "real \<Rightarrow> real \<Rightarrow> npfloat" where
  "fscore purity efficiency = np_div (2 * (purity * efficiency)) (purity + efficiency)"

section \<open>Errors\<close>

text \<open>The exceptions that the modelled functions can raise.\<close>

datatype py_error = NameError string | IndexError | ValueError | RuntimeError | ZeroDivisionError

section \<open>Centroid estimator (inference/spatial\_embeddings.py)\<close>

text \<open>\<open>np.unique\<close>: the distinct values, ascending.\<close>

definition np_unique :: "int list \<Rightarrow> int list" where
  "np_unique xs = sort (remdups xs)"

text \<open>
  \<open>x[index]\<close> for a boolean mask \<open>index\<close>: the rows where the mask is true, in order.
  NumPy raises IndexError when the mask and the array differ in length; the callers below
  check the lengths before they index.
\<close>

definition mask_rows :: "bool list \<Rightarrow> 'a list \<Rightarrow> 'a list" where
  "mask_rows index x = map fst (filter snd (zip x index))"

definition ncols :: "matrix \<Rightarrow> nat" where
  "ncols x = (case x of [] \<Rightarrow> 0 | row # _ \<Rightarrow> length row)"

text \<open>\<open>rows.mean(0)\<close>: the mean of every column.\<close>

definition mean0 :: "matrix \<Rightarrow> vec" where
  "mean0 rows =
     map (\<lambda>k. sum_list (map (\<lambda>row. row ! k) rows) / real (length rows)) [0..<ncols rows]"

text \<open>
  The loop indexes \<open>features\<close> with a mask as long as \<open>labels\<close> (IndexError when the
  lengths differ), and \<open>np.vstack\<close> of no rows raises ValueError.
\<close>

definition find_cluster_means :: "matrix \<Rightarrow> int list \<Rightarrow> py_error + (int list \<times> matrix)" where
  "find_cluster_means features labels =
     (let group_ids = sort (np_unique labels)
      in if labels \<noteq> [] \<and> length labels \<noteq> length features then Inl IndexError
         else if group_ids = [] then Inl ValueError
         else Inr (group_ids,
                   map (\<lambda>c. let index = map (\<lambda>l. l = c) labels
                             in mean0 (mask_rows index features)) group_ids))"

section \<open>Discriminative loss (mlreco/models/cluster/loss.py)\<close>

text \<open>
  \<open>torch.norm(v, p)\<close> for the configured order \<open>p\<close> (\<open>self._norm\<close>, 2 by default), and
  the constant \<open>1e-8\<close> that the losses add to every component before taking the norm.
\<close>

definition torch_norm :: "real \<Rightarrow> vec \<Rightarrow> real" where
  "torch_norm p v = (\<Sum>x\<leftarrow>v. \<bar>x\<bar> powr p) powr (1 / p)"

definition eps :: real where
  "eps = 1 / 10 ^ 8"

definition inter_cluster_loss :: "real \<Rightarrow> matrix \<Rightarrow> real \<Rightarrow> real" where
  "inter_cluster_loss p cluster_means margin =
     (let n_clusters = length cluster_means
      in if n_clusters < 2 then 0
         else
           (let dist_loss =
                  (\<Sum>(i, c1)\<leftarrow>enumerate 0 cluster_means.
                     \<Sum>(j, c2)\<leftarrow>enumerate 0 cluster_means.
                        if i \<noteq> j
                        then (let dist = torch_norm p (map2 (\<lambda>a b. a - b + eps) c1 c2);
                                  hinge = max (2 * margin - dist) 0
                              in hinge\<^sup>2)
                        else 0)
            in dist_loss / real ((n_clusters - 1) * n_clusters)))"

text \<open>
  The loss as the specification words it, to compare with: the Euclidean norm without the
  perturbation, summed over the ordered pairs of distinct centroids.
\<close>

definition euclid :: "vec \<Rightarrow> real" where
  "euclid v = sqrt (\<Sum>x\<leftarrow>v. x\<^sup>2)"

definition inter_cluster_spec :: "matrix \<Rightarrow> real \<Rightarrow> real" where
  "inter_cluster_spec mu margin =
     (\<Sum>(i, j) | i < length mu \<and> j < length mu \<and> i \<noteq> j.
         (max 0 (2 * margin - euclid (map2 (-) (mu ! i) (mu ! j))))\<^sup>2)
     / real (length mu * (length mu - 1))"


definition pairs :: "nat \<Rightarrow> (nat \<times> nat) set" where
  "pairs n = {(i, j). i < n \<and> j < n \<and> i \<noteq> j}"

text \<open>\<open>labels.unique(sorted=True)\<close>.\<close>

definition torch_unique :: "int list \<Rightarrow> int list" where
  "torch_unique xs = sort (remdups xs)"

text \<open>
  \<open>DiscriminativeLoss.find_cluster_means\<close>: the centroid rows alone. \<open>torch.stack\<close> of
  no rows raises RuntimeError.
\<close>

definition dl_find_cluster_means :: "matrix \<Rightarrow> int list \<Rightarrow> py_error + matrix" where
  "dl_find_cluster_means features labels =
     (let clabels = torch_unique labels
      in if labels \<noteq> [] \<and> length labels \<noteq> length features then Inl IndexError
         else if clabels = [] then Inl RuntimeError
         else Inr (map (\<lambda>c. let index = map (\<lambda>l. l = c) labels
                               in mean0 (mask_rows index features)) clabels))"

text \<open>
  \<open>intra_cluster_loss\<close>: its docstring names \<open>margin\<close> the \<open>delta_v\<close> of the paper.
  \<open>cluster_means[i]\<close> raises IndexError when there are fewer centroids than labels, and
  \<open>var_loss /= n_clusters\<close> divides a Python float by zero when there is no centroid.
\<close>

definition intra_cluster_loss :: "real \<Rightarrow> matrix \<Rightarrow> int list \<Rightarrow> matrix \<Rightarrow> real \<Rightarrow> py_error + real" where
  "intra_cluster_loss p features labels cluster_means margin =
     (let n_clusters = length cluster_means;
          cluster_labels = torch_unique labels
      in if labels \<noteq> [] \<and> length labels \<noteq> length features then Inl IndexError
         else if n_clusters < length cluster_labels then Inl IndexError
         else if n_clusters = 0 then Inl ZeroDivisionError
         else
           (let var_loss =
                  (\<Sum>(i, c)\<leftarrow>enumerate 0 cluster_labels.
                     let index = map (\<lambda>l. l = c) labels;
                         dists = map (\<lambda>row. torch_norm p
                                        (map2 (\<lambda>a b. a - b + eps) row (cluster_means ! i)))
                                   (mask_rows index features);
                         hinge = map (\<lambda>d. max (d - margin) 0) dists;
                         l = sum_list (map (\<lambda>h. h\<^sup>2) hinge) / real (length hinge)
                     in l)
            in Inr (var_loss / real n_clusters)))"

text \<open>\<open>regularization\<close>: the mean norm of the centroids.\<close>

definition regularization :: "real \<Rightarrow> matrix \<Rightarrow> py_error + real" where
  "regularization p cluster_means =
     (let n_clusters = length cluster_means
      in if n_clusters = 0 then Inl ZeroDivisionError
         else
           (let reg_loss = (\<Sum>row\<leftarrow>cluster_means. torch_norm p (map (\<lambda>x. x + eps) row))
            in Inr (reg_loss / real n_clusters)))"

text \<open>
  Keyword arguments are a dictionary of floats, read with \<open>kwargs.get(key, default)\<close>.
\<close>

type_synonym kwargs = "string \<rightharpoonup> real"

definition kwargs_get :: "kwargs \<Rightarrow> string \<Rightarrow> real \<Rightarrow> real" where
  "kwargs_get kw key dflt = (case kw key of None \<Rightarrow> dflt | Some v \<Rightarrow> v)"

text \<open>
  Reading a name that the function never assigns looks it up in the globals of the module,
  and raises NameError when it is not bound there.
\<close>

definition load_name :: "(string \<rightharpoonup> real) \<Rightarrow> string \<Rightarrow> py_error + real" where
  "load_name scope name = (case scope name of None \<Rightarrow> Inl (NameError name) | Some v \<Rightarrow> Inr v)"

text \<open>
  The module loss.py binds \<open>torch\<close>, \<open>nn\<close>, \<open>np\<close>, \<open>scn\<close>, \<open>defaultdict\<close> and its
  classes at top level: no float, and none of the names that \<open>combine\<close> reads.
\<close>

definition loss_module_globals :: "string \<rightharpoonup> real" where
  "loss_module_globals = Map.empty"

text \<open>
  \<open>DiscriminativeLoss.combine\<close>, in two parts. First the local variables that the body
  assigns: \<open>inter_loss\<close> is computed with \<open>margin=delta_var\<close> (the key \<open>intra_margin\<close>)
  and \<open>intra_loss\<close> with \<open>margin=delta_dist\<close> (the key \<open>inter_margin\<close>), as the source
  has it. Then the weighted sum, which the source writes over \<open>loss_var\<close>, \<open>loss_dist\<close>
  and \<open>loss_reg\<close>, three names the body never assigns.
\<close>

record combine_locals =
  c_means :: matrix
  inter_loss :: real
  intra_loss :: real
  reg_loss :: real

definition combine_terms :: "real \<Rightarrow> matrix \<Rightarrow> int list \<Rightarrow> kwargs \<Rightarrow> py_error + combine_locals" where
  "combine_terms p features labels kw =
     (let delta_var = kwargs_get kw ''intra_margin'' (1 / 2);
          delta_dist = kwargs_get kw ''inter_margin'' (3 / 2)
      in case dl_find_cluster_means features labels of
           Inl e \<Rightarrow> Inl e
         | Inr cm \<Rightarrow>
             let inter = inter_cluster_loss p cm delta_var
             in case intra_cluster_loss p features labels cm delta_dist of
                  Inl e \<Rightarrow> Inl e
                | Inr intra \<Rightarrow>
                    (case regularization p cm of
                       Inl e \<Rightarrow> Inl e
                     | Inr reg \<Rightarrow>
                         Inr \<lparr>c_means = cm, inter_loss = inter, intra_loss = intra,
                              reg_loss = reg\<rparr>))"

definition combine ::
  "(string \<rightharpoonup> real) \<Rightarrow> real \<Rightarrow> matrix \<Rightarrow> int list \<Rightarrow> kwargs \<Rightarrow> py_error + (string \<rightharpoonup> real)" where
  "combine globals p features labels kw =
     (let intra_weight = kwargs_get kw ''intra_weight'' 1;
          inter_weight = kwargs_get kw ''inter_weight'' 1;
          reg_weight = kwargs_get kw ''reg_weight'' 1
      in case combine_terms p features labels kw of
           Inl e \<Rightarrow> Inl e
         | Inr loc \<Rightarrow>
             (case load_name globals ''loss_var'' of
                Inl e \<Rightarrow> Inl e
              | Inr loss_var \<Rightarrow>
                  (case load_name globals ''loss_dist'' of
                     Inl e \<Rightarrow> Inl e
                   | Inr loss_dist \<Rightarrow>
                       (case load_name globals ''loss_reg'' of
                          Inl e \<Rightarrow> Inl e
                        | Inr loss_reg \<Rightarrow>
                            let loss = intra_weight * loss_var + inter_weight * loss_dist
                                       + reg_weight * loss_reg
                            in Inr [''total_loss'' \<mapsto> loss,
                                    ''var_loss'' \<mapsto> intra_loss loc,
                                    ''dist_loss'' \<mapsto> inter_loss loc,
                                    ''reg_loss'' \<mapsto> reg_loss loc]))))"

section \<open>Greedy seed decoder (inference/spatial\_embeddings.py)\<close>

subsection \<open>Library functions\<close>

text \<open>
  \<open>np.argsort\<close> returns the indices that sort its argument in ascending order. Its default
  sort is not stable, so the order of equal elements is not fixed by the documentation: the
  decoder takes the sort as a parameter, and \<open>is_argsort\<close> says what every sort
  guarantees.
\<close>

type_synonym argsort = "real list \<Rightarrow> nat list"

definition is_argsort :: "argsort \<Rightarrow> bool" where
  "is_argsort argsort \<longleftrightarrow>
     (\<forall>xs. length (argsort xs) = length xs
         \<and> set (argsort xs) = {..<length xs}
         \<and> sorted (map (\<lambda>i. xs ! i) (argsort xs)))"

text \<open>
  One such sort: insertion sort on the indices, which is stable. NumPy's default sort is an
  insertion sort on arrays of at most 16 elements.
\<close>

definition argsort_stable :: argsort where
  "argsort_stable xs = sort_key (\<lambda>i. xs ! i) [0..<length xs]"

text \<open>
  \<open>np.argmax\<close> of one row: the first NaN if there is one, else the first occurrence of
  the maximum. This is the scan that NumPy runs.
\<close>

fun np_le :: "npfloat \<Rightarrow> npfloat \<Rightarrow> bool" where
  "np_le NaN _ = False"
| "np_le _ NaN = False"
| "np_le NInf _ = True"
| "np_le _ PInf = True"
| "np_le (Num a) (Num b) = (a \<le> b)"
| "np_le PInf _ = False"
| "np_le _ NInf = False"

fun argmax_scan :: "npfloat \<Rightarrow> nat \<Rightarrow> nat \<Rightarrow> npfloat list \<Rightarrow> nat" where
  "argmax_scan mp best i [] = best"
| "argmax_scan mp best i (v # vs) =
     (if mp = NaN then best
      else if \<not> np_le v mp then argmax_scan v i (Suc i) vs
      else argmax_scan mp best (Suc i) vs)"

definition np_argmax :: "npfloat list \<Rightarrow> nat" where
  "np_argmax row = (case row of [] \<Rightarrow> 0 | v # vs \<Rightarrow> argmax_scan v 0 1 vs)"

text \<open>
  \<open>np.hstack\<close> of \<open>N \<times> 1\<close> columns, read row by row. The loop below only stores columns
  of one length.
\<close>

definition hstack_rows :: "'a list list \<Rightarrow> 'a list list" where
  "hstack_rows cols =
     (case cols of [] \<Rightarrow> []
      | c # _ \<Rightarrow> map (\<lambda>n. map (\<lambda>col. col ! n) cols) [0..<length c])"

text \<open>\<open>a[mask] = v\<close>: the entries under the mask are overwritten.\<close>

definition mask_assign :: "bool list \<Rightarrow> 'a \<Rightarrow> 'a list \<Rightarrow> 'a list" where
  "mask_assign index v a = map2 (\<lambda>b x. if b then v else x) index a"

subsection \<open>The argmax decoder \<open>fit_predict2\<close>\<close>

text \<open>
  A kernel takes a centroid and a bandwidth and returns a function on point sets. The
  bandwidth is a scalar for the symmetric kernel and a vector for the ellipsoidal one.
\<close>

type_synonym 'm kernel = "vec \<Rightarrow> 'm \<Rightarrow> matrix \<Rightarrow> npfloat list"

text \<open>The variables that the loop updates.\<close>

record 'm fp2_state =
  probs :: "npfloat list list"
  spheres :: "(vec \<times> 'm) list"
  seediness_copy :: "real list"
  count :: nat

definition fp2_init :: "real list \<Rightarrow> 'm fp2_state" where
  "fp2_init seediness = \<lparr>probs = [], spheres = [], seediness_copy = seediness, count = 0\<rparr>"

text \<open>
  One pass through the body of the loop: \<open>Inr None\<close> is the \<open>break\<close>, \<open>Inr (Some st)\<close> the
  state after a full pass. Indexing out of range and a mask of the wrong length raise
  IndexError.
\<close>

definition fp2_body ::
  "argsort \<Rightarrow> matrix \<Rightarrow> real list \<Rightarrow> 'm list \<Rightarrow> 'm kernel \<Rightarrow> real \<Rightarrow> real
     \<Rightarrow> 'm fp2_state \<Rightarrow> py_error + 'm fp2_state option" where
  "fp2_body argsort embeddings seediness margins fitfunc s_threshold p_threshold st =
     (let order = rev (argsort (seediness_copy st))
      in if order = [] then Inl IndexError
         else
           let i = hd order
           in if \<not> i < length seediness then Inl IndexError
              else
                let seedScore = seediness ! i
                in if seedScore < s_threshold then Inr None
                   else if \<not> (i < length embeddings \<and> i < length margins) then Inl IndexError
                   else
                     let centroid = embeddings ! i;
                         sigma = margins ! i;
                         f = fitfunc centroid sigma;
                         pValues = f embeddings;
                         cluster_index = map (\<lambda>v. np_gt v p_threshold) pValues
                     in if length cluster_index \<noteq> length (seediness_copy st)
                        then Inl IndexError
                        else Inr (Some
                          \<lparr>probs = probs st @ [pValues],
                           spheres = spheres st @ [(centroid, sigma)],
                           seediness_copy = mask_assign cluster_index 0 (seediness_copy st),
                           count = count st + length (filter id cluster_index)\<rparr>))"

text \<open>
  \<open>while count < seediness.shape[0]\<close>. Nothing bounds the number of passes, so the loop is
  a partial function: \<open>None\<close> is a loop that never returns.
\<close>

partial_function (option) fp2_loop ::
  "argsort \<Rightarrow> matrix \<Rightarrow> real list \<Rightarrow> 'm list \<Rightarrow> 'm kernel \<Rightarrow> real \<Rightarrow> real
     \<Rightarrow> 'm fp2_state \<Rightarrow> (py_error + 'm fp2_state) option" where
  "fp2_loop argsort embeddings seediness margins fitfunc s_threshold p_threshold st =
     (if count st < length seediness
      then (case fp2_body argsort embeddings seediness margins fitfunc s_threshold p_threshold st of
              Inl e \<Rightarrow> Some (Inl e)
            | Inr None \<Rightarrow> Some (Inr st)
            | Inr (Some st') \<Rightarrow>
                fp2_loop argsort embeddings seediness margins fitfunc s_threshold p_threshold st')
      else Some (Inr st))"

text \<open>
  The decoder: the labels are \<open>-1\<close> everywhere when no sphere was found, else the argmax of
  every row of the stacked probability columns. The parameter \<open>cluster_all\<close> of the source
  is not read by its body and is left out.
\<close>

definition fit_predict2 ::
  "argsort \<Rightarrow> matrix \<Rightarrow> real list \<Rightarrow> 'm list \<Rightarrow> 'm kernel \<Rightarrow> real \<Rightarrow> real
     \<Rightarrow> (py_error + int list \<times> (vec \<times> 'm) list) option" where
  "fit_predict2 argsort embeddings seediness margins fitfunc s_threshold p_threshold =
     (case fp2_loop argsort embeddings seediness margins fitfunc s_threshold p_threshold
             (fp2_init seediness) of
        None \<Rightarrow> None
      | Some (Inl e) \<Rightarrow> Some (Inl e)
      | Some (Inr st) \<Rightarrow>
          if length (probs st) = 0
          then Some (Inr (replicate (length embeddings) (- 1), spheres st))
          else Some (Inr (map (\<lambda>row. int (np_argmax row)) (hstack_rows (probs st)), spheres st)))"

subsection \<open>The first-claim decoder \<open>fit_predict1\<close> and the remainder step\<close>

text \<open>\<open>np.argmin\<close> of one row of finite numbers: the first occurrence of the minimum.\<close>

fun argmin_scan :: "real \<Rightarrow> nat \<Rightarrow> nat \<Rightarrow> real list \<Rightarrow> nat" where
  "argmin_scan mp best i [] = best"
| "argmin_scan mp best i (v # vs) =
     (if v < mp then argmin_scan v i (Suc i) vs else argmin_scan mp best (Suc i) vs)"

definition np_argmin :: "real list \<Rightarrow> nat" where
  "np_argmin row = (case row of [] \<Rightarrow> 0 | v # vs \<Rightarrow> argmin_scan v 0 1 vs)"

text \<open>\<open>scipy.spatial.distance.cdist\<close>: the Euclidean distances between two point sets.\<close>

definition cdist :: "matrix \<Rightarrow> matrix \<Rightarrow> matrix" where
  "cdist xa xb = map (\<lambda>a. map (\<lambda>b. euclid (map2 (-) a b)) xb) xa"

text \<open>\<open>a[mask] = values\<close>: the entries under the mask take the values in order.\<close>

fun mask_scatter :: "bool list \<Rightarrow> 'a list \<Rightarrow> 'a list \<Rightarrow> 'a list" where
  "mask_scatter (True # bs) (v # vs) (x # xs) = v # mask_scatter bs vs xs"
| "mask_scatter (False # bs) vs (x # xs) = x # mask_scatter bs vs xs"
| "mask_scatter _ _ xs = xs"

text \<open>
  \<open>cluster_remainder\<close>: a no-op unless some label is \<open>-1\<close> and some is not; else every
  unassigned point gets the index of its nearest centroid among \<open>predicted_cmeans[1:]\<close>.
\<close>

definition cluster_remainder :: "matrix \<Rightarrow> int list \<Rightarrow> py_error + int list" where
  "cluster_remainder embedding semi_predictions =
     (if length (filter (\<lambda>l. l = - 1) semi_predictions) = 0
         \<or> length (filter (\<lambda>l. l \<noteq> - 1) semi_predictions) = 0
      then Inr semi_predictions
      else
        case find_cluster_means embedding semi_predictions of
          Inl e \<Rightarrow> Inl e
        | Inr (group_ids, predicted_cmeans) \<Rightarrow>
            let unassigned = map (\<lambda>l. l = - 1) semi_predictions;
                others = tl predicted_cmeans
            in if others = [] then Inl ValueError
               else Inr (mask_scatter unassigned
                           (map (\<lambda>row. int (np_argmin row))
                                (cdist (mask_rows unassigned embedding) others))
                           semi_predictions))"

text \<open>
  \<open>fit_predict1\<close> takes \<open>embeddings\<close>, \<open>seediness\<close>, \<open>margins\<close>, \<open>threshold\<close> and
  \<open>cluster_all\<close>, and reads \<open>s_threshold\<close>, \<open>fitfunc\<close> and \<open>p_threshold\<close>, which are
  neither parameters nor assigned in its body: Python looks them up in the globals of the
  module. The module binds none of them (its \<open>__main__\<close> block binds \<open>s_thresholds\<close> and
  \<open>p_thresholds\<close>, in the plural).
\<close>

record 'm module_globals =
  g_s_threshold :: "real option"
  g_fitfunc :: "'m kernel option"
  g_p_threshold :: "real option"

definition inference_module_globals :: "'m module_globals" where
  "inference_module_globals = \<lparr>g_s_threshold = None, g_fitfunc = None, g_p_threshold = None\<rparr>"

definition load_global :: "'a option \<Rightarrow> string \<Rightarrow> py_error + 'a" where
  "load_global binding name = (case binding of None \<Rightarrow> Inl (NameError name) | Some v \<Rightarrow> Inr v)"

text \<open>
  The variables that the loop updates (\<open>c_label\<close> is \<open>c\<close> in the source; the fields that
  \<open>fit_predict2\<close> has too carry a \<open>1\<close>).
\<close>

record 'm fp1_state =
  pred_labels1 :: "int list"
  spheres1 :: "(vec \<times> 'm) list"
  seediness_copy1 :: "real list"
  check_completion :: "bool list"
  c_label :: int

definition fp1_init :: "matrix \<Rightarrow> real list \<Rightarrow> 'm fp1_state" where
  "fp1_init embeddings seediness =
     \<lparr>pred_labels1 = replicate (length embeddings) (- 1), spheres1 = [],
      seediness_copy1 = seediness, check_completion = replicate (length seediness) False,
      c_label = 0\<rparr>"

definition fp1_body ::
  "'m module_globals \<Rightarrow> argsort \<Rightarrow> matrix \<Rightarrow> real list \<Rightarrow> 'm list
     \<Rightarrow> 'm fp1_state \<Rightarrow> py_error + 'm fp1_state option" where
  "fp1_body globals argsort embeddings seediness margins st =
     (let order = rev (argsort (seediness_copy1 st))
      in if order = [] then Inl IndexError
         else
           let i = hd order
           in if \<not> i < length seediness then Inl IndexError
              else
                let seedScore = seediness ! i
                in case load_global (g_s_threshold globals) ''s_threshold'' of
                     Inl e \<Rightarrow> Inl e
                   | Inr s_threshold \<Rightarrow>
                       if seedScore < s_threshold then Inr None
                       else if \<not> (i < length embeddings \<and> i < length margins) then Inl IndexError
                       else
                         let centroid = embeddings ! i;
                             sigma = margins ! i
                         in case load_global (g_fitfunc globals) ''fitfunc'' of
                              Inl e \<Rightarrow> Inl e
                            | Inr fitfunc \<Rightarrow>
                                let f = fitfunc centroid sigma;
                                    pValues = f embeddings
                                in case load_global (g_p_threshold globals) ''p_threshold'' of
                                     Inl e \<Rightarrow> Inl e
                                   | Inr p_threshold \<Rightarrow>
                                       let cluster_index = map (\<lambda>v. np_gt v p_threshold) pValues
                                       in if length cluster_index \<noteq> length (seediness_copy1 st)
                                             \<or> length cluster_index \<noteq> length (check_completion st)
                                             \<or> length cluster_index \<noteq> length (pred_labels1 st)
                                          then Inl IndexError
                                          else Inr (Some
                                            \<lparr>pred_labels1 =
                                               mask_assign cluster_index (c_label st) (pred_labels1 st),
                                             spheres1 = spheres1 st @ [(centroid, sigma)],
                                             seediness_copy1 =
                                               mask_assign cluster_index 0 (seediness_copy1 st),
                                             check_completion =
                                               mask_assign cluster_index True (check_completion st),
                                             c_label = c_label st + 1\<rparr>))"

text \<open>\<open>while not check_completion.all()\<close>.\<close>

partial_function (option) fp1_loop ::
  "'m module_globals \<Rightarrow> argsort \<Rightarrow> matrix \<Rightarrow> real list \<Rightarrow> 'm list
     \<Rightarrow> 'm fp1_state \<Rightarrow> (py_error + 'm fp1_state) option" where
  "fp1_loop globals argsort embeddings seediness margins st =
     (if \<not> list_all id (check_completion st)
      then (case fp1_body globals argsort embeddings seediness margins st of
              Inl e \<Rightarrow> Some (Inl e)
            | Inr None \<Rightarrow> Some (Inr st)
            | Inr (Some st') \<Rightarrow> fp1_loop globals argsort embeddings seediness margins st')
      else Some (Inr st))"

definition fit_predict1 ::
  "'m module_globals \<Rightarrow> argsort \<Rightarrow> matrix \<Rightarrow> real list \<Rightarrow> 'm list \<Rightarrow> real \<Rightarrow> bool
     \<Rightarrow> (py_error + int list \<times> (vec \<times> 'm) list) option" where
  "fit_predict1 globals argsort embeddings seediness margins threshold cluster_all =
     (case fp1_loop globals argsort embeddings seediness margins (fp1_init embeddings seediness) of
        None \<Rightarrow> None
      | Some (Inl e) \<Rightarrow> Some (Inl e)
      | Some (Inr st) \<Rightarrow>
          if cluster_all
          then (case cluster_remainder embeddings (pred_labels1 st) of
                  Inl e \<Rightarrow> Some (Inl e)
                | Inr labels \<Rightarrow> Some (Inr (labels, spheres1 st)))
          else Some (Inr (pred_labels1 st, spheres1 st)))"

section \<open>Vocabulary for the properties of the decoder\<close>

text \<open>
  The states that the loop of \<open>fit_predict2\<close> passes through: the initial one, and every
  state that a full pass of the body produces from a reachable state on which the loop
  condition holds.
\<close>

inductive fp2_reach ::
  "argsort \<Rightarrow> matrix \<Rightarrow> real list \<Rightarrow> 'm list \<Rightarrow> 'm kernel \<Rightarrow> real \<Rightarrow> real \<Rightarrow> 'm fp2_state \<Rightarrow> bool"
  for argsort embeddings seediness margins fitfunc s_threshold p_threshold where
  init: "fp2_reach argsort embeddings seediness margins fitfunc s_threshold p_threshold
           (fp2_init seediness)"
| step: "fp2_reach argsort embeddings seediness margins fitfunc s_threshold p_threshold st \<Longrightarrow>
         count st < length seediness \<Longrightarrow>
         fp2_body argsort embeddings seediness margins fitfunc s_threshold p_threshold st
           = Inr (Some st') \<Longrightarrow>
         fp2_reach argsort embeddings seediness margins fitfunc s_threshold p_threshold st'"

text \<open>
  A point is peeled (excluded) once some sphere has claimed it: its probability under that
  sphere exceeded \<open>p_threshold\<close>, and the loop zeroed its entry of \<open>seediness_copy\<close>.
\<close>

definition peeled :: "real \<Rightarrow> 'm fp2_state \<Rightarrow> nat \<Rightarrow> bool" where
  "peeled p_threshold st j \<longleftrightarrow> (\<exists>col\<in>set (probs st). np_gt (col ! j) p_threshold)"

text \<open>
  What every reachable state satisfies: the copy and every probability column are as long
  as the seediness vector, the copy holds 0 at the peeled points and the original seediness
  elsewhere, and \<open>count\<close> is at least the number of peeled points (a point claimed twice is
  counted twice).
\<close>

definition fp2_inv :: "real list \<Rightarrow> real \<Rightarrow> 'm fp2_state \<Rightarrow> bool" where
  "fp2_inv seediness p_threshold st \<longleftrightarrow>
     length (seediness_copy st) = length seediness
   \<and> (\<forall>col\<in>set (probs st). length col = length seediness)
   \<and> (\<forall>j<length seediness.
         seediness_copy st ! j = (if peeled p_threshold st j then 0 else seediness ! j))
   \<and> card {j. j < length seediness \<and> peeled p_threshold st j} \<le> count st
   \<and> length (spheres st) = length (probs st)"

text \<open>
  The seeds of a state, in the order of discovery: sphere \<open>k\<close> and probability column
  \<open>k\<close> come from the point \<open>seeds ! k\<close> under the kernel \<open>fitfunc\<close>, and no
  earlier sphere had claimed that point.
\<close>

definition seeded ::
  "'m kernel \<Rightarrow> matrix \<Rightarrow> 'm list \<Rightarrow> real \<Rightarrow> 'm fp2_state \<Rightarrow> nat list \<Rightarrow> bool" where
  "seeded fitfunc embeddings margins p_threshold st seeds \<longleftrightarrow>
     length seeds = length (probs st)
   \<and> (\<forall>k<length seeds.
         seeds ! k < length embeddings
       \<and> probs st ! k
           = fitfunc (embeddings ! (seeds ! k)) (margins ! (seeds ! k)) embeddings
       \<and> spheres st ! k = (embeddings ! (seeds ! k), margins ! (seeds ! k))
       \<and> (\<forall>j<k. \<not> np_gt (probs st ! j ! (seeds ! k)) p_threshold))"

text \<open>
  What the specification asks of a kernel, as far as the decoder depends on it. The kernel
  returns one value for every point and is 1 at its own centroid when the centroid is one
  of the points (\<open>seed_is_one\<close>); and every value is a number not above 1, never NaN or an
  infinity (\<open>kernel_in_unit\<close>). The kernels of the source, run on floats, are 1 at the seed
  as long as \<open>2 * sigma**2\<close> is a non-zero finite float: a margin of 0, and a non-zero
  margin so small that its square underflows to 0.0, give NaN there instead.
\<close>

definition seed_is_one :: "'m kernel \<Rightarrow> matrix \<Rightarrow> 'm list \<Rightarrow> bool" where
  "seed_is_one fitfunc embeddings margins \<longleftrightarrow>
     (\<forall>i<length embeddings.
        length (fitfunc (embeddings ! i) (margins ! i) embeddings) = length embeddings
      \<and> fitfunc (embeddings ! i) (margins ! i) embeddings ! i = Num 1)"

definition kernel_in_unit :: "'m kernel \<Rightarrow> matrix \<Rightarrow> 'm list \<Rightarrow> bool" where
  "kernel_in_unit fitfunc embeddings margins \<longleftrightarrow>
     (\<forall>i<length embeddings. \<forall>n<length embeddings.
        \<exists>v. fitfunc (embeddings ! i) (margins ! i) embeddings ! n = Num v \<and> v \<le> 1)"

text \<open>
  The run on one point of seediness 1 and margin 0, before any point is counted: the state
  from which the loop cannot move.
\<close>

definition stuck :: "argsort \<Rightarrow> matrix \<Rightarrow> real list \<Rightarrow> real list \<Rightarrow> real kernel \<Rightarrow> real \<Rightarrow> real
    \<Rightarrow> real fp2_state \<Rightarrow> bool" where
  "stuck a e s m f t p st \<longleftrightarrow>
     a = argsort_stable \<and> e = [[0]] \<and> s = [1] \<and> m = [0] \<and> f = gaussian_kernel \<and> t = 0
     \<and> p = 1 / 2 \<and> seediness_copy st = [1] \<and> count st = 0"

section \<open>Kernels: properties\<close>

lemma sq_dist_nonneg: "0 \<le> sq_dist row centroid"
  unfolding sq_dist_def by (rule sum_list_nonneg) auto

lemma sq_dist_self: "sq_dist c c = 0"
  unfolding sq_dist_def by (induction c) auto

lemma gaussian_kernel_length: "length (gaussian_kernel c s x) = length x"
  by (simp add: gaussian_kernel_def)

lemma gaussian_kernel_nth:
  assumes "n < length x" and "sigma \<noteq> 0"
  shows "gaussian_kernel c sigma x ! n = Num (exp (- sq_dist (x ! n) c / (2 * sigma\<^sup>2)))"
  using assms by (simp add: gaussian_kernel_def np_div_def)

text \<open>
  The symmetric kernel does what the specification says of it: for a non-zero bandwidth
  whose square is a non-zero finite number (over the reals, every non-zero bandwidth) its
  values lie in \<open>(0, 1]\<close> and fall as the distance grows.
\<close>

lemma gaussian_kernel_range:
  assumes "n < length x" and "sigma \<noteq> 0"
  shows "\<exists>p. gaussian_kernel c sigma x ! n = Num p \<and> 0 < p \<and> p \<le> 1"
proof -
  have "- sq_dist (x ! n) c / (2 * sigma\<^sup>2) \<le> 0"
    using sq_dist_nonneg [of "x ! n" c] assms(2) by (simp add: divide_nonpos_pos)
  then have "exp (- sq_dist (x ! n) c / (2 * sigma\<^sup>2)) \<le> 1" by simp
  then show ?thesis using gaussian_kernel_nth [OF assms] by simp
qed

lemma gaussian_kernel_antimono:
  assumes "sigma \<noteq> 0" and "sq_dist a c \<le> sq_dist b c"
  shows "exp (- sq_dist b c / (2 * sigma\<^sup>2)) \<le> exp (- sq_dist a c / (2 * sigma\<^sup>2))"
  using assms by (simp add: divide_right_mono)

text \<open>
  The ellipsoidal kernel of the source, for non-zero bandwidths: the exponent has the sign
  of the squared distance, so no value is below 1 and the value grows with the distance.
\<close>

lemma np_sum_Num: "foldl np_add (Num a) (map Num xs) = Num (a + sum_list xs)"
  by (induction xs arbitrary: a) (simp_all add: add.assoc)

lemma sum_list_neg: "sum_list (map (\<lambda>z. - f z) zs) = - sum_list (map f zs)" for f :: "'a \<Rightarrow> real"
  by (induction zs) simp_all

lemma ellipsoidal_kernel_nth:
  assumes "n < length x" and "\<forall>s\<in>set sigma. s \<noteq> 0"
  shows "ellipsoidal_kernel centroid sigma x ! n
           = Num (exp (\<Sum>((a, c), s)\<leftarrow>zip (zip (x ! n) centroid) sigma. (a - c)\<^sup>2 / (2 * s\<^sup>2)))"
proof -
  let ?f = "\<lambda>((a, c), s). (a - c)\<^sup>2 / (2 * s\<^sup>2) :: real"
  let ?zs = "zip (zip (x ! n) centroid) sigma"
  have "map np_neg (map2 (\<lambda>(a, c) s. np_div ((a - c)\<^sup>2) (2 * s\<^sup>2)) (zip (x ! n) centroid) sigma)
          = map Num (map (\<lambda>z. - ?f z) ?zs)"
    using assms(2) by (auto simp: np_div_def dest: set_zip_rightD)
  then have "np_sum (map np_neg (map2 (\<lambda>(a, c) s. np_div ((a - c)\<^sup>2) (2 * s\<^sup>2))
                 (zip (x ! n) centroid) sigma))
          = Num (0 + sum_list (map (\<lambda>z. - ?f z) ?zs))"
    by (simp only: np_sum_def np_sum_Num)
  then have "np_exp (np_neg (np_sum (map np_neg (map2 (\<lambda>(a, c) s. np_div ((a - c)\<^sup>2) (2 * s\<^sup>2))
                 (zip (x ! n) centroid) sigma)))) = Num (exp (sum_list (map ?f ?zs)))"
    by (simp add: sum_list_neg)
  then show ?thesis using assms(1) by (simp add: ellipsoidal_kernel_def Let_def)
qed

lemma ellipsoidal_kernel_ge_one:
  assumes "n < length x" and "\<forall>s\<in>set sigma. s \<noteq> 0"
  shows "\<exists>v. ellipsoidal_kernel centroid sigma x ! n = Num v \<and> 1 \<le> v"
proof -
  have "0 \<le> (\<Sum>((a, c), s)\<leftarrow>zip (zip (x ! n) centroid) sigma. (a - c)\<^sup>2 / (2 * s\<^sup>2))"
    by (rule sum_list_nonneg) auto
  then show ?thesis using ellipsoidal_kernel_nth [OF assms] by simp
qed

text \<open>
  Claim C2 (the symmetric and the ellipsoidal kernel both return a probability in
  \<open>(0, 1]\<close> that decreases with the distance from the centroid, the ellipsoidal one being
  \<open>exp (- \<Sum>\<^sub>k (x\<^sub>k - c\<^sub>k)\<^sup>2 / (2 \<sigma>\<^sub>k\<^sup>2))\<close>): the ellipsoidal kernel of the source negates the
  exponent twice. At centroid \<open>[0]\<close>, bandwidth \<open>[1]\<close> and the point \<open>[1]\<close> it returns
  \<open>exp (1/2)\<close>, which is above 1, where the claim has \<open>exp (- 1/2)\<close>.
\<close>

theorem ellipsoidal_kernel_exponent_sign:
  "ellipsoidal_kernel [0] [1] [[1]] = [Num (exp (1 / 2))] \<and> 1 < exp (1 / 2 :: real)
   \<and> exp (1 / 2) \<noteq> exp (- (1 / 2) :: real)"
  by (simp add: ellipsoidal_kernel_def np_div_def np_sum_def)

section \<open>F-score: properties\<close>

text \<open>
  Claim C9, as amended: for purity and efficiency in \<open>[0, 1]\<close> that are not both zero, the
  F-score is \<open>2 \<cdot> purity \<cdot> efficiency / (purity + efficiency)\<close>, lies in \<open>[0, 1]\<close> and is
  zero when either input is zero.
\<close>

theorem fscore_harmonic:
  assumes "0 \<le> p" "p \<le> 1" "0 \<le> e" "e \<le> 1" "p + e \<noteq> 0"
  shows "fscore p e = Num (2 * p * e / (p + e))
         \<and> 0 \<le> 2 * p * e / (p + e) \<and> 2 * p * e / (p + e) \<le> 1
         \<and> (p = 0 \<or> e = 0 \<longrightarrow> fscore p e = Num 0)"
proof -
  have pos: "0 < p + e" using assms by linarith
  have val: "fscore p e = Num (2 * p * e / (p + e))"
    using assms(5) by (simp add: fscore_def np_div_def mult.assoc)
  have lo: "0 \<le> 2 * p * e / (p + e)"
    using assms pos by simp
  have "p * e \<le> p" "p * e \<le> e"
    using assms by (simp_all add: mult_left_le mult_left_le_one_le)
  then have "2 * p * e \<le> p + e" by linarith
  then have hi: "2 * p * e / (p + e) \<le> 1"
    using pos by simp
  have zero: "p = 0 \<or> e = 0 \<longrightarrow> fscore p e = Num 0"
    using val by auto
  show ?thesis using val lo hi zero by blast
qed

theorem fscore_harmonic_witness:
  "fscore (1 / 2) 1 = Num (2 / 3) \<and> fscore 0 1 = Num 0"
proof -
  have a: "fscore (1 / 2) 1 = Num (2 * (1 / 2) * 1 / (1 / 2 + 1))"
    using fscore_harmonic [of "1 / 2" 1] by simp
  have b: "fscore 0 1 = Num 0"
    using fscore_harmonic [of 0 1] by simp
  show ?thesis using a b by simp
qed

text \<open>
  Claim C9 as stated has the division guarded. It is not: with purity and efficiency both
  zero the quotient is \<open>0 / 0\<close>, which is NaN.
\<close>

theorem fscore_unguarded: "fscore 0 0 = NaN"
  by (simp add: fscore_def np_div_def)

section \<open>Centroid estimator: properties\<close>

lemma mask_rows_nth:
  assumes "length x = length index"
  shows "mask_rows index x = map ((!) x) (filter ((!) index) [0..<length x])"
proof -
  have "zip x index = map (\<lambda>i. (x ! i, index ! i)) [0..<length x]"
    using assms by (intro nth_equalityI) auto
  then show ?thesis
    by (simp add: mask_rows_def filter_map comp_def)
qed

lemma sum_list_mask_rows:
  assumes "length x = length index"
  shows "sum_list (map f (mask_rows index x)) = (\<Sum>n | n < length x \<and> index ! n. f (x ! n))"
proof -
  have d: "distinct (filter ((!) index) [0..<length x])" by simp
  have s: "set (filter ((!) index) [0..<length x]) = {n. n < length x \<and> index ! n}" by auto
  have "sum_list (map f (mask_rows index x)) = sum_list (map (\<lambda>n. f (x ! n)) (filter ((!) index) [0..<length x]))"
    by (simp add: mask_rows_nth [OF assms] comp_def)
  also have "\<dots> = (\<Sum>n\<in>set (filter ((!) index) [0..<length x]). f (x ! n))"
    using d by (rule sum_list_distinct_conv_sum_set)
  finally show ?thesis by (simp only: s)
qed

lemma length_mask_rows:
  assumes "length x = length index"
  shows "length (mask_rows index x) = card {n. n < length x \<and> index ! n}"
proof -
  have "length (mask_rows index x) = length (filter ((!) index) [0..<length x])"
    by (simp add: mask_rows_nth [OF assms])
  also have "\<dots> = card (set (filter ((!) index) [0..<length x]))"
    by (rule distinct_card [symmetric]) simp
  also have "set (filter ((!) index) [0..<length x]) = {n. n < length x \<and> index ! n}" by auto
  finally show ?thesis .
qed

lemma set_mask_rows: "set (mask_rows index x) \<subseteq> set x"
  by (auto simp: mask_rows_def dest: set_zip_leftD)

lemma group_ids_eq: "sort (np_unique labels) = sorted_list_of_set (set labels)"
  by (simp add: np_unique_def sorted_list_of_set_sort_remdups sorted_sort_id)

text \<open>
  Claim C3: for a non-empty \<open>N \<times> d\<close> feature matrix and \<open>N\<close> integer labels (of any
  sign, contiguous or not), \<open>find_cluster_means\<close> returns the distinct labels in ascending
  order and one centroid row for each of them, and row \<open>i\<close> is the arithmetic mean of the
  feature rows whose label is the \<open>i\<close>-th distinct label.
\<close>

theorem find_cluster_means_spec:
  assumes ne: "features \<noteq> []"
    and len: "length labels = length features"
    and mat: "\<forall>row\<in>set features. length row = d"
  shows "\<exists>group_ids cluster_means.
           find_cluster_means features labels = Inr (group_ids, cluster_means)
         \<and> group_ids = sorted_list_of_set (set labels)
         \<and> length cluster_means = card (set labels)
         \<and> (\<forall>i<length group_ids. length (cluster_means ! i) = d
              \<and> (\<forall>k<d. cluster_means ! i ! k =
                    (\<Sum>n | n < length features \<and> labels ! n = group_ids ! i. features ! n ! k)
                    / real (card {n. n < length features \<and> labels ! n = group_ids ! i})))"
proof -
  let ?ids = "sorted_list_of_set (set labels)"
  let ?row = "\<lambda>c. mean0 (mask_rows (map (\<lambda>l. l = c) labels) features)"
  have lne: "labels \<noteq> []" using ne len by auto
  then have idne: "?ids \<noteq> []"
    by (simp add: sorted_list_of_set_eq_Nil_iff)
  have val: "find_cluster_means features labels = Inr (?ids, map ?row ?ids)"
    using lne idne len by (simp add: find_cluster_means_def Let_def group_ids_eq)
  have cnt: "length (map ?row ?ids) = card (set labels)"
    by simp
  have rows: "length (map ?row ?ids ! i) = d
     \<and> (\<forall>k<d. map ?row ?ids ! i ! k =
                    (\<Sum>n | n < length features \<and> labels ! n = ?ids ! i. features ! n ! k)
                    / real (card {n. n < length features \<and> labels ! n = ?ids ! i}))"
    if i: "i < length ?ids" for i
  proof -
    let ?c = "?ids ! i"
    let ?idx = "map (\<lambda>l. l = ?c) labels"
    let ?m = "mask_rows ?idx features"
    have li: "length features = length ?idx" using len by simp
    have "?c \<in> set ?ids" using i by (rule nth_mem)
    then have cin: "?c \<in> set labels" by simp
    then obtain n0 where n0: "n0 < length labels" "labels ! n0 = ?c"
      by (auto simp: in_set_conv_nth)
    have sets: "{n. n < length features \<and> ?idx ! n} = {n. n < length features \<and> labels ! n = ?c}"
      using len by auto
    have "n0 \<in> {n. n < length features \<and> labels ! n = ?c}" using n0 len by simp
    moreover have "finite {n. n < length features \<and> labels ! n = ?c}" by simp
    ultimately have "card {n. n < length features \<and> labels ! n = ?c} \<noteq> 0"
      by (metis card_eq_0_iff empty_iff)
    moreover have lm: "length ?m = card {n. n < length features \<and> labels ! n = ?c}"
      by (simp only: length_mask_rows [OF li] sets)
    ultimately have "length ?m \<noteq> 0" by simp
    then have mne: "?m \<noteq> []" by (simp only: length_0_conv not_False_eq_True)
    have sub: "set ?m \<subseteq> set features" by (rule set_mask_rows)
    have "hd ?m \<in> set ?m" using mne by (rule hd_in_set)
    then have "length (hd ?m) = d" using mat sub by blast
    then have nc: "ncols ?m = d" using mne by (cases ?m) (simp_all add: ncols_def)
    have r: "map ?row ?ids ! i = mean0 ?m" using i by (simp only: nth_map)
    have l: "length (mean0 ?m) = d" by (simp add: mean0_def nc)
    have sm: "sum_list (map (\<lambda>row. row ! k) ?m)
              = (\<Sum>n | n < length features \<and> labels ! n = ?c. features ! n ! k)" for k
      by (simp only: sum_list_mask_rows [OF li] sets)
    have e: "mean0 ?m ! k = (\<Sum>n | n < length features \<and> labels ! n = ?c. features ! n ! k)
                    / real (card {n. n < length features \<and> labels ! n = ?c})" if "k < d" for k
    proof -
      have "mean0 ?m ! k = sum_list (map (\<lambda>row. row ! k) ?m) / real (length ?m)"
        using that by (simp add: mean0_def nc)
      then show ?thesis by (simp only: sm lm)
    qed
    show ?thesis using l e by (simp only: r) blast
  qed
  show ?thesis using val cnt rows by blast
qed


theorem find_cluster_means_spec_witness:
  "find_cluster_means [[0, 0], [2, 4], [10, 10]] [5, - 1, 5] = Inr ([- 1, 5], [[2, 4], [5, 5]])
   \<and> (\<exists>group_ids cluster_means.
         find_cluster_means [[0, 0], [2, 4], [10, 10]] [5, - 1, 5] = Inr (group_ids, cluster_means)
         \<and> length cluster_means = card (set [5, - 1, 5 :: int]))"
proof -
  have a: "find_cluster_means [[0, 0], [2, 4], [10, 10]] [5, - 1, 5]
           = Inr ([- 1, 5], [[2, 4], [5, 5]])"
    by (simp add: find_cluster_means_def np_unique_def mask_rows_def mean0_def ncols_def)
  have b: "\<exists>group_ids cluster_means.
         find_cluster_means [[0, 0], [2, 4], [10, 10]] [5, - 1, 5] = Inr (group_ids, cluster_means)
         \<and> length cluster_means = card (set [5, - 1, 5 :: int])"
    using find_cluster_means_spec [of "[[0, 0], [2, 4], [10, 10]]" "[5, - 1, 5]" 2]
    by (simp add: less_Suc_eq) blast
  show ?thesis using a b by (rule conjI)
qed

section \<open>Inter-cluster loss: properties\<close>

lemma torch_norm_2: "torch_norm 2 v = euclid v"
proof -
  have a: "\<bar>x\<bar> powr 2 = x\<^sup>2" for x :: real
    by (cases "x = 0") (simp_all add: powr_numeral)
  have "(\<Sum>x\<leftarrow>v. \<bar>x\<bar> powr 2) = (\<Sum>x\<leftarrow>v. x\<^sup>2)"
    by (simp only: a)
  moreover have "0 \<le> (\<Sum>x\<leftarrow>v. x\<^sup>2)" by (rule sum_list_nonneg) auto
  ultimately show ?thesis
    by (simp add: torch_norm_def euclid_def powr_half_sqrt)
qed

lemma sum_sq_nonneg: "0 \<le> (\<Sum>x\<leftarrow>v. x\<^sup>2)" for v :: vec
  by (rule sum_list_nonneg) auto

lemma euclid_nonneg: "0 \<le> euclid v"
  unfolding euclid_def using sum_sq_nonneg by (rule real_sqrt_ge_zero)

lemma euclid_Cons: "euclid (x # v) = sqrt (x\<^sup>2 + (euclid v)\<^sup>2)"
proof -
  have "0 \<le> (\<Sum>x\<leftarrow>v. x\<^sup>2)" by (rule sum_list_nonneg) auto
  then show ?thesis by (simp add: euclid_def)
qed

lemma euclid_triangle: "euclid (map2 (+) u v) \<le> euclid u + euclid v"
proof (induction u arbitrary: v)
  case Nil
  show ?case using euclid_nonneg [of v] by (simp add: euclid_def)
next
  case (Cons a u)
  show ?case
  proof (cases v)
    case Nil
    then show ?thesis using euclid_nonneg [of "a # u"] by (simp add: euclid_def)
  next
    case (Cons b w)
    let ?S = "euclid (map2 (+) u w)"
    have ih: "?S \<le> euclid u + euclid w" by (rule Cons.IH)
    have s0: "0 \<le> ?S" by (rule euclid_nonneg)
    have "?S\<^sup>2 \<le> (euclid u + euclid w)\<^sup>2"
      using ih s0 by (rule power_mono)
    then have "sqrt ((a + b)\<^sup>2 + ?S\<^sup>2) \<le> sqrt ((a + b)\<^sup>2 + (euclid u + euclid w)\<^sup>2)"
      by simp
    also have "\<dots> \<le> sqrt (a\<^sup>2 + (euclid u)\<^sup>2) + sqrt (b\<^sup>2 + (euclid w)\<^sup>2)"
      by (rule real_sqrt_sum_squares_triangle_ineq)
    finally show ?thesis using Cons by (simp add: euclid_Cons)
  qed
qed

lemma euclid_replicate: "euclid (replicate d e) = \<bar>e\<bar> * sqrt (real d)"
proof -
  have "(\<Sum>x\<leftarrow>replicate d e. x\<^sup>2) = real d * e\<^sup>2"
    by (induction d) (simp_all add: algebra_simps)
  then show ?thesis
    by (simp add: euclid_def real_sqrt_mult mult.commute)
qed

lemma enumerate_upt: "enumerate 0 xs = map (\<lambda>i. (i, xs ! i)) [0..<length xs]"
  by (intro nth_equalityI) (simp_all add: nth_enumerate_eq)

lemma sum_list_enumerate:
  "(\<Sum>(i, x)\<leftarrow>enumerate 0 xs. g i x) = (\<Sum>i<length xs. g i (xs ! i))"
proof -
  have "(\<Sum>(i, x)\<leftarrow>enumerate 0 xs. g i x) = (\<Sum>i\<leftarrow>[0..<length xs]. g i (xs ! i))"
    by (simp only: enumerate_upt map_map comp_def case_prod_conv)
  also have "\<dots> = sum (\<lambda>i. g i (xs ! i)) (set [0..<length xs])"
    by (rule interv_sum_list_conv_sum_set_nat)
  also have "set [0..<length xs] = {..<length xs}" by auto
  finally show ?thesis .
qed

lemma pairs_Sigma: "pairs n = (SIGMA i:{..<n}. {..<n} - {i})"
  by (auto simp: pairs_def)

lemma finite_pairs: "finite (pairs n)"
  by (simp add: pairs_Sigma)

lemma card_pairs: "card (pairs n) = n * (n - 1)"
proof -
  have "card (pairs n) = (\<Sum>i\<in>{..<n}. card ({..<n} - {i}))"
    unfolding pairs_Sigma by (rule card_SigmaI) simp_all
  also have "\<dots> = (\<Sum>i\<in>{..<n}. n - 1)"
    by (rule sum.cong) simp_all
  finally show ?thesis by simp
qed

lemma sum_pairs:
  "(\<Sum>i<n. \<Sum>j<n. if i \<noteq> j then h i j else 0) = (\<Sum>(i, j)\<in>pairs n. h i j)" for h :: "nat \<Rightarrow> nat \<Rightarrow> real"
proof -
  have "(\<Sum>i<n. \<Sum>j<n. if i \<noteq> j then h i j else 0) = (\<Sum>i<n. \<Sum>j\<in>{..<n} - {i}. h i j)"
  proof (rule sum.cong [OF refl])
    fix i
    have "(\<Sum>j<n. if i \<noteq> j then h i j else 0) = (\<Sum>j\<in>{j \<in> {..<n}. i \<noteq> j}. h i j)"
      by (rule sum.inter_filter [symmetric]) simp
    also have "{j \<in> {..<n}. i \<noteq> j} = {..<n} - {i}" by auto
    finally show "(\<Sum>j<n. if i \<noteq> j then h i j else 0) = (\<Sum>j\<in>{..<n} - {i}. h i j)" .
  qed
  also have "\<dots> = (\<Sum>(i, j)\<in>(SIGMA i:{..<n}. {..<n} - {i}). h i j)"
    by (rule sum.Sigma) simp_all
  finally show ?thesis by (simp only: pairs_Sigma)
qed

lemma inter_cluster_loss_sum:
  assumes "2 \<le> length cm"
  shows "inter_cluster_loss p cm margin =
           (\<Sum>(i, j)\<in>pairs (length cm).
               (max (2 * margin - torch_norm p (map2 (\<lambda>a b. a - b + eps) (cm ! i) (cm ! j))) 0)\<^sup>2)
           / real (length cm * (length cm - 1))"
proof -
  let ?h = "\<lambda>i j. (max (2 * margin - torch_norm p (map2 (\<lambda>a b. a - b + eps) (cm ! i) (cm ! j))) 0)\<^sup>2"
  have "(\<Sum>(i, c1)\<leftarrow>enumerate 0 cm. \<Sum>(j, c2)\<leftarrow>enumerate 0 cm.
            if i \<noteq> j then (let dist = torch_norm p (map2 (\<lambda>a b. a - b + eps) c1 c2);
                                  hinge = max (2 * margin - dist) 0 in hinge\<^sup>2) else 0)
        = (\<Sum>i<length cm. \<Sum>j<length cm. if i \<noteq> j then ?h i j else 0)"
    by (simp only: sum_list_enumerate Let_def)
  also have "\<dots> = (\<Sum>(i, j)\<in>pairs (length cm). ?h i j)"
    by (rule sum_pairs)
  finally show ?thesis
    using assms by (simp add: inter_cluster_loss_def Let_def mult.commute)
qed

lemma map2_sub_eps:
  fixes c1 c2 :: vec
  assumes "length c1 = d" "length c2 = d"
  shows "map2 (\<lambda>a b. a - b + e) c1 c2 = map2 (+) (map2 (-) c1 c2) (replicate d e)"
  using assms by (intro nth_equalityI) simp_all

lemma map2_sub_eps':
  fixes c1 c2 :: vec
  assumes "length c1 = d" "length c2 = d"
  shows "map2 (-) c1 c2 = map2 (+) (map2 (\<lambda>a b. a - b + e) c1 c2) (replicate d (- e))"
  using assms by (intro nth_equalityI) simp_all

lemma euclid_perturb:
  fixes c1 c2 :: vec
  assumes "length c1 = d" "length c2 = d"
  shows "\<bar>euclid (map2 (\<lambda>a b. a - b + e) c1 c2) - euclid (map2 (-) c1 c2)\<bar> \<le> \<bar>e\<bar> * sqrt (real d)"
proof -
  have a: "euclid (map2 (\<lambda>a b. a - b + e) c1 c2) \<le> euclid (map2 (-) c1 c2) + \<bar>e\<bar> * sqrt (real d)"
    using euclid_triangle [of "map2 (-) c1 c2" "replicate d e"]
    by (simp only: map2_sub_eps [OF assms, symmetric] euclid_replicate)
  have b: "euclid (map2 (-) c1 c2) \<le> euclid (map2 (\<lambda>a b. a - b + e) c1 c2) + \<bar>e\<bar> * sqrt (real d)"
    using euclid_triangle [of "map2 (\<lambda>a b. a - b + e) c1 c2" "replicate d (- e)"]
    by (simp only: map2_sub_eps' [OF assms, symmetric] euclid_replicate abs_minus)
  show ?thesis using a b by linarith
qed

lemma hinge_sq_close:
  fixes s t m \<delta> :: real
  assumes "0 \<le> s" "0 \<le> t" "\<bar>s - t\<bar> \<le> \<delta>"
  shows "\<bar>(max (2 * m - s) 0)\<^sup>2 - (max 0 (2 * m - t))\<^sup>2\<bar> \<le> 4 * \<bar>m\<bar> * \<delta>"
proof -
  define a where "a = max (2 * m - s) 0"
  define b where "b = max 0 (2 * m - t)"
  have d: "\<bar>a - b\<bar> \<le> \<delta>" using assms by (auto simp: a_def b_def max_def)
  have a: "0 \<le> a" "a \<le> 2 * \<bar>m\<bar>" using assms by (auto simp: a_def max_def)
  have b: "0 \<le> b" "b \<le> 2 * \<bar>m\<bar>" using assms by (auto simp: b_def max_def)
  have "a\<^sup>2 - b\<^sup>2 = (a - b) * (a + b)"
    by (simp add: power2_eq_square algebra_simps)
  then have "\<bar>a\<^sup>2 - b\<^sup>2\<bar> = \<bar>a - b\<bar> * \<bar>a + b\<bar>"
    by (simp only: abs_mult)
  also have "\<bar>a + b\<bar> = a + b" using a b by simp
  also have "\<bar>a - b\<bar> * (a + b) \<le> \<delta> * (4 * \<bar>m\<bar>)"
    using d a b by (intro mult_mono) auto
  finally show ?thesis by (simp add: a_def b_def mult.commute)
qed

lemma inter_cluster_spec_pairs:
  "inter_cluster_spec mu margin =
     (\<Sum>(i, j)\<in>pairs (length mu). (max 0 (2 * margin - euclid (map2 (-) (mu ! i) (mu ! j))))\<^sup>2)
     / real (length mu * (length mu - 1))"
  by (simp add: inter_cluster_spec_def pairs_def)

lemma inter_cluster_loss_close:
  assumes mat: "\<forall>c\<in>set cm. length c = d" and n: "2 \<le> length cm"
  shows "\<bar>inter_cluster_loss 2 cm margin - inter_cluster_spec cm margin\<bar>
           \<le> 4 * \<bar>margin\<bar> * (eps * sqrt (real d))"
proof -
  let ?n = "length cm"
  let ?N = "real (?n * (?n - 1))"
  let ?B = "4 * \<bar>margin\<bar> * (eps * sqrt (real d))"
  let ?hc = "\<lambda>(i, j). (max (2 * margin - torch_norm 2 (map2 (\<lambda>a b. a - b + eps) (cm ! i) (cm ! j))) 0)\<^sup>2"
  let ?hs = "\<lambda>(i, j). (max 0 (2 * margin - euclid (map2 (-) (cm ! i) (cm ! j))))\<^sup>2"
  have "0 < ?n" "0 < ?n - 1" using n by linarith+
  then have "0 < ?n * (?n - 1)" by (rule mult_pos_pos)
  then have Npos: "0 < ?N" by (simp only: of_nat_0_less_iff)
  have e0: "\<bar>eps\<bar> = eps" by (simp add: eps_def)
  have each: "\<bar>?hc x - ?hs x\<bar> \<le> ?B" if "x \<in> pairs ?n" for x
  proof -
    obtain i j where x: "x = (i, j)" by (cases x)
    have ij: "i < ?n" "j < ?n" using that by (auto simp: x pairs_def)
    have l: "length (cm ! i) = d" "length (cm ! j) = d" using mat ij by auto
    have "\<bar>euclid (map2 (\<lambda>a b. a - b + eps) (cm ! i) (cm ! j)) - euclid (map2 (-) (cm ! i) (cm ! j))\<bar>
            \<le> eps * sqrt (real d)"
      using euclid_perturb [OF l, of eps] by (simp only: e0)
    then have "\<bar>(max (2 * margin - euclid (map2 (\<lambda>a b. a - b + eps) (cm ! i) (cm ! j))) 0)\<^sup>2
                - (max 0 (2 * margin - euclid (map2 (-) (cm ! i) (cm ! j))))\<^sup>2\<bar> \<le> ?B"
      by (intro hinge_sq_close euclid_nonneg)
    then show ?thesis by (simp only: x case_prod_conv torch_norm_2)
  qed
  have "\<bar>sum ?hc (pairs ?n) - sum ?hs (pairs ?n)\<bar> = \<bar>\<Sum>x\<in>pairs ?n. ?hc x - ?hs x\<bar>"
    by (simp only: sum_subtractf)
  also have "\<dots> \<le> (\<Sum>x\<in>pairs ?n. \<bar>?hc x - ?hs x\<bar>)"
    by (rule sum_abs)
  also have "\<dots> \<le> (\<Sum>x\<in>pairs ?n. ?B)"
    by (rule sum_mono) (rule each)
  also have "\<dots> = ?N * ?B"
    by (simp only: sum_constant card_pairs)
  finally have tot: "\<bar>sum ?hc (pairs ?n) - sum ?hs (pairs ?n)\<bar> \<le> ?N * ?B" .
  have "inter_cluster_loss 2 cm margin - inter_cluster_spec cm margin
          = (sum ?hc (pairs ?n) - sum ?hs (pairs ?n)) / ?N"
    by (simp only: inter_cluster_loss_sum [OF n] inter_cluster_spec_pairs diff_divide_distrib)
  then have "\<bar>inter_cluster_loss 2 cm margin - inter_cluster_spec cm margin\<bar>
          = \<bar>sum ?hc (pairs ?n) - sum ?hs (pairs ?n)\<bar> / ?N"
    using Npos by (simp only: abs_divide abs_of_pos)
  also have "\<dots> \<le> ?N * ?B / ?N"
    using tot Npos by (simp only: divide_right_mono less_imp_le)
  also have "\<dots> = ?B"
  proof -
    have "?N \<noteq> 0" using Npos by (rule less_imp_neq [THEN not_sym])
    then show ?thesis by (rule nonzero_mult_div_cancel_left)
  qed
  finally show ?thesis .
qed

text \<open>
  Claim C4: with fewer than two centroid rows \<open>inter_cluster_loss\<close> is exactly 0, whatever
  the embedding values; with \<open>n \<ge> 2\<close> rows it is the sum over the ordered pairs of
  distinct centroids of \<open>max(0, 2 \<cdot> margin - \<parallel>\<mu>\<^sub>i - \<mu>\<^sub>j + 1e-8\<parallel>)\<^sup>2\<close> divided by
  \<open>n \<cdot> (n - 1)\<close>, and for the Euclidean norm that value differs from the unperturbed
  formula of the specification by at most \<open>4 \<cdot> |margin| \<cdot> 1e-8 \<cdot> \<surd>d\<close>.
\<close>

theorem inter_cluster_loss_spec:
  assumes "\<forall>c\<in>set cm. length c = d"
  shows "(length cm < 2 \<longrightarrow> inter_cluster_loss p cm margin = 0)
       \<and> (2 \<le> length cm \<longrightarrow>
            inter_cluster_loss p cm margin =
              (\<Sum>(i, j) | i < length cm \<and> j < length cm \<and> i \<noteq> j.
                  (max (2 * margin - torch_norm p (map2 (\<lambda>a b. a - b + eps) (cm ! i) (cm ! j))) 0)\<^sup>2)
              / real (length cm * (length cm - 1))
          \<and> \<bar>inter_cluster_loss 2 cm margin - inter_cluster_spec cm margin\<bar>
               \<le> 4 * \<bar>margin\<bar> * (eps * sqrt (real d)))"
proof (intro conjI impI)
  assume "length cm < 2"
  then show "inter_cluster_loss p cm margin = 0"
    by (simp add: inter_cluster_loss_def)
next
  assume "2 \<le> length cm"
  then show "inter_cluster_loss p cm margin =
              (\<Sum>(i, j) | i < length cm \<and> j < length cm \<and> i \<noteq> j.
                  (max (2 * margin - torch_norm p (map2 (\<lambda>a b. a - b + eps) (cm ! i) (cm ! j))) 0)\<^sup>2)
              / real (length cm * (length cm - 1))"
    by (simp only: inter_cluster_loss_sum pairs_def)
next
  assume "2 \<le> length cm"
  with assms show "\<bar>inter_cluster_loss 2 cm margin - inter_cluster_spec cm margin\<bar>
               \<le> 4 * \<bar>margin\<bar> * (eps * sqrt (real d))"
    by (rule inter_cluster_loss_close)
qed

theorem inter_cluster_loss_spec_witness:
  "inter_cluster_loss 2 [[1, 2]] (3 / 2) = 0
   \<and> \<bar>inter_cluster_loss 2 [[0], [3]] 1 - inter_cluster_spec [[0], [3]] 1\<bar> \<le> 4 * eps"
proof -
  have a: "inter_cluster_loss 2 [[1, 2]] (3 / 2) = 0"
    using inter_cluster_loss_spec [of "[[1, 2]]" 2 2 "3 / 2"] by simp
  have b: "\<bar>inter_cluster_loss 2 [[0], [3]] 1 - inter_cluster_spec [[0], [3]] 1\<bar> \<le> 4 * eps"
    using inter_cluster_loss_spec [of "[[0], [3]]" 1 2 1] by simp
  show ?thesis using a b by (rule conjI)
qed

section \<open>Discriminative loss: the combination\<close>

text \<open>
  The centroid estimator of the loss returns the centroid rows of the estimator of the
  inference script.
\<close>

lemma dl_find_cluster_means_eq:
  assumes "find_cluster_means features labels = Inr (group_ids, cluster_means)"
  shows "dl_find_cluster_means features labels = Inr cluster_means"
proof -
  have "sort (np_unique labels) = torch_unique labels"
    by (simp add: np_unique_def torch_unique_def sorted_sort_id)
  then show ?thesis
    using assms
    by (auto simp: find_cluster_means_def dl_find_cluster_means_def Let_def split: if_splits)
qed

lemma dl_means_ex: "dl_find_cluster_means [[0], [2]] [0, 1] = Inr [[0], [2]]"
  by (simp add: dl_find_cluster_means_def torch_unique_def mask_rows_def mean0_def ncols_def)

lemma intra_ok: "\<exists>v. intra_cluster_loss 2 [[0], [2]] [0, 1] [[0], [2]] m = Inr v"
proof -
  have "\<not> isl (intra_cluster_loss 2 [[0], [2]] [0, 1] [[0], [2]] m)"
    by (simp add: intra_cluster_loss_def torch_unique_def Let_def)
  then show ?thesis by (cases "intra_cluster_loss 2 [[0], [2]] [0, 1] [[0], [2]] m") simp_all
qed

lemma reg_ok: "\<exists>v. regularization 2 [[0], [2]] = Inr v"
proof -
  have "\<not> isl (regularization 2 [[0], [2]])"
    by (simp add: regularization_def Let_def)
  then show ?thesis by (cases "regularization 2 [[0], [2]]") simp_all
qed

lemma euclid_single: "euclid [x] = \<bar>x\<bar>"
  by (simp add: euclid_def)

lemma inter_half: "inter_cluster_loss 2 [[0], [2]] (1 / 2) = 0"
  by (simp add: inter_cluster_loss_def Let_def enumerate_eq_zip torch_norm_2 euclid_single eps_def upt_conv_Cons)

lemma inter_three_halves: "0 < inter_cluster_loss 2 [[0], [2]] (3 / 2)"
  by (simp add: inter_cluster_loss_def Let_def enumerate_eq_zip torch_norm_2 euclid_single eps_def
        upt_conv_Cons power2_eq_square)

text \<open>
  Claim C5 (\<open>combine\<close> uses \<open>intra_margin\<close> as the hinge margin of the intra-cluster term
  and \<open>inter_margin\<close> as that of the inter-cluster term, and returns the weighted sum as
  \<open>total_loss\<close>): on two points at \<open>0\<close> and \<open>2\<close> with labels \<open>0\<close> and \<open>1\<close>,
  \<open>intra_margin = 0.5\<close> and \<open>inter_margin = 1.5\<close>, the source raises NameError at the
  weighted sum, and the inter-cluster term it computed before is 0, the value for the
  margin 0.5, where the margin 1.5 of the claim gives a positive loss.
\<close>

theorem combine_name_error_and_swapped_margins:
  "combine loss_module_globals 2 [[0], [2]] [0, 1] [''intra_margin'' \<mapsto> 1 / 2, ''inter_margin'' \<mapsto> 3 / 2]
     = Inl (NameError ''loss_var'')
   \<and> map_sum id inter_loss
        (combine_terms 2 [[0], [2]] [0, 1] [''intra_margin'' \<mapsto> 1 / 2, ''inter_margin'' \<mapsto> 3 / 2])
     = Inr 0
   \<and> 0 < inter_cluster_loss 2 [[0], [2]] (3 / 2)"
proof -
  let ?kw = "[''intra_margin'' \<mapsto> 1 / 2, ''inter_margin'' \<mapsto> 3 / 2] :: kwargs"
  obtain a where a: "intra_cluster_loss 2 [[0], [2]] [0, 1] [[0], [2]] (3 / 2) = Inr a"
    using intra_ok by blast
  obtain r where r: "regularization 2 [[0], [2]] = Inr r"
    using reg_ok by blast
  have t: "combine_terms 2 [[0], [2]] [0, 1] ?kw
      = Inr \<lparr>c_means = [[0], [2]], inter_loss = 0, intra_loss = a, reg_loss = r\<rparr>"
    by (simp add: combine_terms_def kwargs_get_def dl_means_ex a r inter_half)
  have c: "combine loss_module_globals 2 [[0], [2]] [0, 1] ?kw = Inl (NameError ''loss_var'')"
    by (simp add: combine_def t load_name_def loss_module_globals_def)
  show ?thesis using c t inter_three_halves by simp
qed

section \<open>Greedy seed decoder: the loop, step by step\<close>

lemma sorted_le_last: "sorted ys \<Longrightarrow> y \<in> set ys \<Longrightarrow> y \<le> last ys" for ys :: "real list"
  by (induction ys) (auto split: if_splits)

lemma argsort_top:
  assumes a: "is_argsort argsort" and ne: "xs \<noteq> []"
  shows "rev (argsort xs) \<noteq> []"
    and "hd (rev (argsort xs)) < length xs"
    and "\<forall>j<length xs. xs ! j \<le> xs ! hd (rev (argsort xs))"
proof -
  let ?l = "argsort xs"
  have len: "length ?l = length xs" and st: "set ?l = {..<length xs}"
    and so: "sorted (map (\<lambda>i. xs ! i) ?l)"
    using a by (simp_all add: is_argsort_def)
  have lne: "?l \<noteq> []" using len ne by auto
  then show "rev ?l \<noteq> []" by simp
  have hl: "hd (rev ?l) = last ?l" using lne by (simp add: hd_rev)
  have "last ?l \<in> set ?l" using lne by simp
  then show "hd (rev ?l) < length xs" using st hl by simp
  show "\<forall>j<length xs. xs ! j \<le> xs ! hd (rev ?l)"
  proof (intro allI impI)
    fix j assume "j < length xs"
    then have "j \<in> set ?l" using st by simp
    then have "xs ! j \<in> set (map (\<lambda>i. xs ! i) ?l)" by simp
    then have "xs ! j \<le> last (map (\<lambda>i. xs ! i) ?l)" using so by (rule sorted_le_last [rotated])
    then show "xs ! j \<le> xs ! hd (rev ?l)" using lne by (simp add: last_map hl)
  qed
qed

lemma is_argsort_stable: "is_argsort argsort_stable"
  by (auto simp: is_argsort_def argsort_stable_def)

lemma fp2_loop_exit:
  "\<not> count st < length seediness \<Longrightarrow>
   fp2_loop argsort embeddings seediness margins fitfunc s_threshold p_threshold st = Some (Inr st)"
  by (subst fp2_loop.simps) simp

lemma fp2_loop_break:
  "count st < length seediness \<Longrightarrow>
   fp2_body argsort embeddings seediness margins fitfunc s_threshold p_threshold st = Inr None \<Longrightarrow>
   fp2_loop argsort embeddings seediness margins fitfunc s_threshold p_threshold st = Some (Inr st)"
  by (subst fp2_loop.simps) simp

lemma fp2_loop_raise:
  "count st < length seediness \<Longrightarrow>
   fp2_body argsort embeddings seediness margins fitfunc s_threshold p_threshold st = Inl e \<Longrightarrow>
   fp2_loop argsort embeddings seediness margins fitfunc s_threshold p_threshold st = Some (Inl e)"
  by (subst fp2_loop.simps) simp

lemma fp2_loop_continue:
  "count st < length seediness \<Longrightarrow>
   fp2_body argsort embeddings seediness margins fitfunc s_threshold p_threshold st = Inr (Some st') \<Longrightarrow>
   fp2_loop argsort embeddings seediness margins fitfunc s_threshold p_threshold st
     = fp2_loop argsort embeddings seediness margins fitfunc s_threshold p_threshold st'"
  by (subst fp2_loop.simps) simp

lemma fp2_body_at:
  assumes "rev (argsort (seediness_copy st)) \<noteq> []"
    and "hd (rev (argsort (seediness_copy st))) = i"
    and "i < length seediness" "i < length embeddings" "i < length margins"
    and "\<not> seediness ! i < s_threshold"
    and "length (fitfunc (embeddings ! i) (margins ! i) embeddings) = length (seediness_copy st)"
  shows "fp2_body argsort embeddings seediness margins fitfunc s_threshold p_threshold st =
     Inr (Some
       \<lparr>probs = probs st @ [fitfunc (embeddings ! i) (margins ! i) embeddings],
        spheres = spheres st @ [(embeddings ! i, margins ! i)],
        seediness_copy =
          mask_assign (map (\<lambda>v. np_gt v p_threshold) (fitfunc (embeddings ! i) (margins ! i) embeddings))
            0 (seediness_copy st),
        count = count st
          + length (filter id (map (\<lambda>v. np_gt v p_threshold)
                                  (fitfunc (embeddings ! i) (margins ! i) embeddings)))\<rparr>)"
  using assms by (simp add: fp2_body_def Let_def)

lemma fp2_body_break:
  assumes "rev (argsort (seediness_copy st)) \<noteq> []"
    and "hd (rev (argsort (seediness_copy st))) = i"
    and "i < length seediness"
    and "seediness ! i < s_threshold"
  shows "fp2_body argsort embeddings seediness margins fitfunc s_threshold p_threshold st = Inr None"
  using assms by (simp add: fp2_body_def Let_def)

lemma exp_neg_small: "1 \<le> x \<Longrightarrow> exp (- x) \<le> 1 / 2" for x :: real
proof -
  assume x: "1 \<le> x"
  have "2 \<le> 1 + x" using x by simp
  also have "\<dots> \<le> exp x" by (rule exp_ge_add_one_self)
  finally have "2 \<le> exp x" .
  then have "inverse (exp x) \<le> inverse 2" by (intro le_imp_inverse_le) simp_all
  then show ?thesis by (simp add: exp_minus)
qed

lemma exp_neg_big: "x < 1 / 2 \<Longrightarrow> 1 / 2 < exp (- x)" for x :: real
proof -
  assume x: "x < 1 / 2"
  have "1 / 2 < 1 + - x" using x by simp
  also have "\<dots> \<le> exp (- x)" by (rule exp_ge_add_one_self)
  finally show ?thesis .
qed

section \<open>Greedy seed decoder: the two-cluster scenario\<close>

lemma gk_a: "gaussian_kernel [5, 5] (1 / 2) [[0, 0], [1 / 10, 0], [5, 5], [51 / 10, 5]]
   = [Num (exp (- 100)), Num (exp (- (9802 / 100))), Num 1, Num (exp (- (2 / 100)))]"
  by (simp add: gaussian_kernel_def sq_dist_def np_div_def power2_eq_square)

lemma gk_b: "gaussian_kernel [0, 0] (1 / 2) [[0, 0], [1 / 10, 0], [5, 5], [51 / 10, 5]]
   = [Num 1, Num (exp (- (2 / 100))), Num (exp (- 100)), Num (exp (- (10202 / 100)))]"
  by (simp add: gaussian_kernel_def sq_dist_def np_div_def power2_eq_square)


lemma top_of4:
  assumes "is_argsort argsort"
  shows "rev (argsort [a, b, c, d]) \<noteq> []"
    and "hd (rev (argsort [a, b, c, d])) < 4"
    and "a \<le> [a, b, c, d] ! hd (rev (argsort [a, b, c, d]))"
    and "b \<le> [a, b, c, d] ! hd (rev (argsort [a, b, c, d]))"
    and "c \<le> [a, b, c, d] ! hd (rev (argsort [a, b, c, d]))"
    and "d \<le> [a, b, c, d] ! hd (rev (argsort [a, b, c, d]))"
  using argsort_top [OF assms, of "[a, b, c, d]"] by (simp_all add: less_Suc_eq all_conj_distrib numeral_eq_Suc)


lemma lt4: "i < 4 \<Longrightarrow> i = 0 \<or> i = 1 \<or> i = 2 \<or> i = (3::nat)"
  by auto

lemma top_first:
  assumes "is_argsort argsort"
  shows "hd (rev (argsort [1, 9 / 10, 1, 9 / 10])) = 0 \<or> hd (rev (argsort [1, 9 / 10, 1, 9 / 10])) = 2"
  using top_of4 [OF assms, where a = 1 and b = "9 / 10" and c = 1 and d = "9 / 10"] by (auto dest!: lt4)

lemma top_second_a:
  assumes "is_argsort argsort"
  shows "hd (rev (argsort [1, 9 / 10, 0, 0])) = 0"
  using top_of4 [OF assms, where a = 1 and b = "9 / 10" and c = 0 and d = 0] by (auto dest!: lt4)

lemma top_second_b:
  assumes "is_argsort argsort"
  shows "hd (rev (argsort [0, 0, 1, 9 / 10])) = 2"
  using top_of4 [OF assms, where a = 0 and b = 0 and c = 1 and d = "9 / 10"] by (auto dest!: lt4)

lemma scenario_exps:
  "\<not> 1 / 2 < exp (- 100 :: real)" "\<not> 1 / 2 < exp (- (9802 / 100) :: real)"
  "\<not> 1 / 2 < exp (- (10202 / 100) :: real)" "1 / 2 < exp (- (2 / 100) :: real)"
  using exp_neg_small [of 100] exp_neg_small [of "9802 / 100"] exp_neg_small [of "10202 / 100"]
    exp_neg_big [of "2 / 100"] by simp_all

lemma scenario_from_2:
  assumes a: "is_argsort argsort"
    and i: "hd (rev (argsort [1, 9 / 10, 1, 9 / 10])) = 2"
  shows "fit_predict2 argsort [[0, 0], [1 / 10, 0], [5, 5], [51 / 10, 5]] [1, 9 / 10, 1, 9 / 10]
           [1 / 2, 1 / 2, 1 / 2, 1 / 2] gaussian_kernel 0 (1 / 2)
         = Some (Inr ([1, 1, 0, 0], [([5, 5], 1 / 2), ([0, 0], 1 / 2)]))"
proof -
  let ?E = "[[0, 0], [1 / 10, 0], [5, 5], [51 / 10, 5]] :: matrix"
  let ?S = "[1, 9 / 10, 1, 9 / 10] :: real list"
  let ?M = "[1 / 2, 1 / 2, 1 / 2, 1 / 2] :: real list"
  let ?ga = "[Num (exp (- 100)), Num (exp (- (9802 / 100))), Num 1, Num (exp (- (2 / 100)))]"
  let ?gb = "[Num 1, Num (exp (- (2 / 100))), Num (exp (- 100)), Num (exp (- (10202 / 100)))]"
  let ?st1 = "\<lparr>probs = [?ga], spheres = [([5, 5], 1 / 2 :: real)],
               seediness_copy = [1, 9 / 10, 0, 0], count = 2\<rparr>"
  let ?st2 = "\<lparr>probs = [?ga, ?gb], spheres = [([5, 5], 1 / 2 :: real), ([0, 0], 1 / 2)],
               seediness_copy = [0, 0, 0, 0], count = 4\<rparr>"
  have b1: "fp2_body argsort ?E ?S ?M gaussian_kernel 0 (1 / 2) (fp2_init ?S) = Inr (Some ?st1)"
    using top_of4 (1) [OF a, of 1 "9 / 10" 1 "9 / 10"] i scenario_exps
    by (subst fp2_body_at [where i = 2])
       (simp_all add: fp2_init_def gk_a mask_assign_def)
  have b2: "fp2_body argsort ?E ?S ?M gaussian_kernel 0 (1 / 2) ?st1 = Inr (Some ?st2)"
    using top_of4 (1) [OF a, of 1 "9 / 10" 0 0] top_second_a [OF a] scenario_exps
    by (subst fp2_body_at [where i = 0])
       (simp_all add: gk_b mask_assign_def)
  have "fp2_loop argsort ?E ?S ?M gaussian_kernel 0 (1 / 2) (fp2_init ?S)
        = fp2_loop argsort ?E ?S ?M gaussian_kernel 0 (1 / 2) ?st1"
    by (rule fp2_loop_continue [OF _ b1]) (simp add: fp2_init_def)
  also have "\<dots> = fp2_loop argsort ?E ?S ?M gaussian_kernel 0 (1 / 2) ?st2"
    by (rule fp2_loop_continue [OF _ b2]) simp
  also have "\<dots> = Some (Inr ?st2)"
    by (rule fp2_loop_exit) simp
  finally show ?thesis
    by (simp add: fit_predict2_def hstack_rows_def np_argmax_def upt_conv_Cons)
qed


lemma scenario_from_0:
  assumes a: "is_argsort argsort"
    and i: "hd (rev (argsort [1, 9 / 10, 1, 9 / 10])) = 0"
  shows "fit_predict2 argsort [[0, 0], [1 / 10, 0], [5, 5], [51 / 10, 5]] [1, 9 / 10, 1, 9 / 10]
           [1 / 2, 1 / 2, 1 / 2, 1 / 2] gaussian_kernel 0 (1 / 2)
         = Some (Inr ([0, 0, 1, 1], [([0, 0], 1 / 2), ([5, 5], 1 / 2)]))"
proof -
  let ?E = "[[0, 0], [1 / 10, 0], [5, 5], [51 / 10, 5]] :: matrix"
  let ?S = "[1, 9 / 10, 1, 9 / 10] :: real list"
  let ?M = "[1 / 2, 1 / 2, 1 / 2, 1 / 2] :: real list"
  let ?ga = "[Num (exp (- 100)), Num (exp (- (9802 / 100))), Num 1, Num (exp (- (2 / 100)))]"
  let ?gb = "[Num 1, Num (exp (- (2 / 100))), Num (exp (- 100)), Num (exp (- (10202 / 100)))]"
  let ?st1 = "\<lparr>probs = [?gb], spheres = [([0, 0], 1 / 2 :: real)],
               seediness_copy = [0, 0, 1, 9 / 10], count = 2\<rparr>"
  let ?st2 = "\<lparr>probs = [?gb, ?ga], spheres = [([0, 0], 1 / 2 :: real), ([5, 5], 1 / 2)],
               seediness_copy = [0, 0, 0, 0], count = 4\<rparr>"
  have b1: "fp2_body argsort ?E ?S ?M gaussian_kernel 0 (1 / 2) (fp2_init ?S) = Inr (Some ?st1)"
    using top_of4 (1) [OF a, of 1 "9 / 10" 1 "9 / 10"] i scenario_exps
    by (subst fp2_body_at [where i = 0])
       (simp_all add: fp2_init_def gk_b mask_assign_def)
  have b2: "fp2_body argsort ?E ?S ?M gaussian_kernel 0 (1 / 2) ?st1 = Inr (Some ?st2)"
    using top_of4 (1) [OF a, of 0 0 1 "9 / 10"] top_second_b [OF a] scenario_exps
    by (subst fp2_body_at [where i = 2])
       (simp_all add: gk_a mask_assign_def)
  have "fp2_loop argsort ?E ?S ?M gaussian_kernel 0 (1 / 2) (fp2_init ?S)
        = fp2_loop argsort ?E ?S ?M gaussian_kernel 0 (1 / 2) ?st1"
    by (rule fp2_loop_continue [OF _ b1]) (simp add: fp2_init_def)
  also have "\<dots> = fp2_loop argsort ?E ?S ?M gaussian_kernel 0 (1 / 2) ?st2"
    by (rule fp2_loop_continue [OF _ b2]) simp
  also have "\<dots> = Some (Inr ?st2)"
    by (rule fp2_loop_exit) simp
  finally show ?thesis
    by (simp add: fit_predict2_def hstack_rows_def np_argmax_def upt_conv_Cons)
qed

text \<open>
  Claim C1: on the embeddings \<open>[[0,0],[0.1,0],[5,5],[5.1,5]]\<close>, seediness
  \<open>[1,0.9,1,0.9]\<close>, margins \<open>0.5\<close>, \<open>s_threshold = 0\<close>, \<open>p_threshold = 0.5\<close> and the
  symmetric Gaussian kernel, \<open>fit_predict2\<close> returns two spheres and a label vector with
  exactly two distinct labels, one shared by the points 0 and 1 and the other by the points
  2 and 3. This holds for every sort that \<open>np.argsort\<close> may be: the two seeds of
  seediness 1 tie, and either order gives the same partition.
\<close>

theorem fit_predict2_scenario:
  assumes "is_argsort argsort"
  shows "\<exists>pred_labels spheres.
           fit_predict2 argsort [[0, 0], [1 / 10, 0], [5, 5], [51 / 10, 5]] [1, 9 / 10, 1, 9 / 10]
             [1 / 2, 1 / 2, 1 / 2, 1 / 2] gaussian_kernel 0 (1 / 2)
           = Some (Inr (pred_labels, spheres))
         \<and> length spheres = 2 \<and> length pred_labels = 4 \<and> card (set pred_labels) = 2
         \<and> pred_labels ! 0 = pred_labels ! 1 \<and> pred_labels ! 2 = pred_labels ! 3
         \<and> pred_labels ! 0 \<noteq> pred_labels ! 2"
proof -
  consider "hd (rev (argsort [1, 9 / 10, 1, 9 / 10])) = 0"
    | "hd (rev (argsort [1, 9 / 10, 1, 9 / 10])) = 2"
    using top_first [OF assms] by (elim disjE)
  then show ?thesis
  proof cases
    case 1
    show ?thesis
      by (simp add: scenario_from_0 [OF assms 1])
  next
    case 2
    show ?thesis
      by (simp add: scenario_from_2 [OF assms 2])
  qed
qed

theorem fit_predict2_scenario_witness:
  "is_argsort argsort_stable
   \<and> (\<exists>pred_labels spheres.
           fit_predict2 argsort_stable [[0, 0], [1 / 10, 0], [5, 5], [51 / 10, 5]]
             [1, 9 / 10, 1, 9 / 10] [1 / 2, 1 / 2, 1 / 2, 1 / 2] gaussian_kernel 0 (1 / 2)
           = Some (Inr (pred_labels, spheres))
         \<and> length spheres = 2 \<and> card (set pred_labels) = 2)"
  using fit_predict2_scenario [OF is_argsort_stable] is_argsort_stable by blast

section \<open>Greedy seed decoder: which point seeds a sphere\<close>

lemma fp2_inv_init: "fp2_inv seediness p (fp2_init seediness)"
  by (simp add: fp2_inv_def fp2_init_def peeled_def)

lemma fp2_body_SomeD:
  assumes "fp2_body argsort embeddings seediness margins fitfunc s_threshold p_threshold st
             = Inr (Some st')"
  defines "i \<equiv> hd (rev (argsort (seediness_copy st)))"
  defines "pv \<equiv> fitfunc (embeddings ! i) (margins ! i) embeddings"
  shows "i < length seediness" "i < length embeddings" "i < length margins"
    "\<not> seediness ! i < s_threshold"
    "length pv = length (seediness_copy st)"
    "st' = \<lparr>probs = probs st @ [pv], spheres = spheres st @ [(embeddings ! i, margins ! i)],
            seediness_copy = mask_assign (map (\<lambda>v. np_gt v p_threshold) pv) 0 (seediness_copy st),
            count = count st + length (filter id (map (\<lambda>v. np_gt v p_threshold) pv))\<rparr>"
  using assms(1) unfolding i_def pv_def fp2_body_def Let_def
  by (auto split: if_splits)

lemma peeled_step:
  "peeled p (st\<lparr>probs := probs st @ [pv]\<rparr>) j \<longleftrightarrow> peeled p st j \<or> np_gt (pv ! j) p"
  by (auto simp: peeled_def)

lemma fp2_inv_step:
  assumes inv: "fp2_inv seediness p_threshold st"
    and b: "fp2_body argsort embeddings seediness margins fitfunc s_threshold p_threshold st
             = Inr (Some st')"
  shows "fp2_inv seediness p_threshold st'"
proof -
  let ?N = "length seediness"
  define i where "i = hd (rev (argsort (seediness_copy st)))"
  define pv where "pv = fitfunc (embeddings ! i) (margins ! i) embeddings"
  define ci where "ci = map (\<lambda>v. np_gt v p_threshold) pv"
  note d = fp2_body_SomeD [OF b, folded i_def, folded pv_def, folded ci_def]
  have lc: "length (seediness_copy st) = ?N" using inv by (simp add: fp2_inv_def)
  have lpv: "length pv = ?N" using d(5) lc by simp
  have lci: "length ci = ?N" using lpv by (simp add: ci_def)
  have pe: "peeled p_threshold st' j \<longleftrightarrow> peeled p_threshold st j \<or> np_gt (pv ! j) p_threshold" for j
    by (auto simp: d(6) peeled_def)
  have cij: "ci ! j = np_gt (pv ! j) p_threshold" if "j < ?N" for j
    using that lpv by (simp add: ci_def)
  have 1: "length (seediness_copy st') = ?N"
    using lc lci by (simp add: d(6) mask_assign_def)
  have 2: "\<forall>col\<in>set (probs st'). length col = ?N"
    using inv lpv by (auto simp: d(6) fp2_inv_def)
  have 3: "seediness_copy st' ! j = (if peeled p_threshold st' j then 0 else seediness ! j)"
    if j: "j < ?N" for j
  proof -
    have "seediness_copy st' ! j = (if ci ! j then 0 else seediness_copy st ! j)"
      using j lc lci by (simp add: d(6) mask_assign_def)
    moreover have "seediness_copy st ! j = (if peeled p_threshold st j then 0 else seediness ! j)"
      using inv j by (simp add: fp2_inv_def)
    ultimately show ?thesis using cij [OF j] pe [of j] by simp
  qed
  have 4: "card {j. j < ?N \<and> peeled p_threshold st' j} \<le> count st'"
  proof -
    have sub: "{j. j < ?N \<and> peeled p_threshold st' j}
        \<subseteq> {j. j < ?N \<and> peeled p_threshold st j} \<union> {j. j < length ci \<and> ci ! j}"
      using pe cij lci by auto
    have "card {j. j < ?N \<and> peeled p_threshold st' j}
        \<le> card ({j. j < ?N \<and> peeled p_threshold st j} \<union> {j. j < length ci \<and> ci ! j})"
      by (rule card_mono [OF _ sub]) simp
    also have "\<dots> \<le> card {j. j < ?N \<and> peeled p_threshold st j} + card {j. j < length ci \<and> ci ! j}"
      by (rule card_Un_le)
    finally have un: "card {j. j < ?N \<and> peeled p_threshold st' j}
        \<le> card {j. j < ?N \<and> peeled p_threshold st j} + card {j. j < length ci \<and> ci ! j}" .
    have cB: "card {j. j < length ci \<and> ci ! j} = length (filter id ci)"
      unfolding length_filter_conv_card by simp
    have cA: "card {j. j < ?N \<and> peeled p_threshold st j} \<le> count st"
      using inv by (simp add: fp2_inv_def)
    have "card {j. j < ?N \<and> peeled p_threshold st' j}
        \<le> count st + length (filter id ci)" using un cA cB by linarith
    moreover have "count st' = count st + length (filter id ci)"
      unfolding d(6) by (rule fp2_state.select_convs)
    ultimately show ?thesis by (simp only:)
  qed
  have 5: "length (spheres st') = length (probs st')"
    using inv by (simp add: d(6) fp2_inv_def)
  show ?thesis unfolding fp2_inv_def using 1 2 3 4 5 by blast
qed

lemma fp2_reach_inv:
  assumes "fp2_reach argsort embeddings seediness margins fitfunc s_threshold p_threshold st"
  shows "fp2_inv seediness p_threshold st"
  using assms by (induction rule: fp2_reach.induct) (auto intro: fp2_inv_init fp2_inv_step)

lemma exists_unpeeled:
  assumes inv: "fp2_inv seediness p st" and c: "count st < length seediness"
  shows "\<exists>j<length seediness. \<not> peeled p st j"
proof (rule ccontr)
  assume "\<not> (\<exists>j<length seediness. \<not> peeled p st j)"
  then have "{j. j < length seediness \<and> peeled p st j} = {..<length seediness}" by auto
  then have "card {j. j < length seediness \<and> peeled p st j} = length seediness" by simp
  then show False using inv c by (simp add: fp2_inv_def)
qed

lemma seed_unpeeled:
  assumes a: "is_argsort argsort"
    and pos: "\<forall>s\<in>set seediness. 0 < s"
    and inv: "fp2_inv seediness p st"
    and c: "count st < length seediness"
  defines "i \<equiv> hd (rev (argsort (seediness_copy st)))"
  shows "rev (argsort (seediness_copy st)) \<noteq> []"
    and "i < length seediness"
    and "\<not> peeled p st i"
    and "\<forall>j<length seediness. \<not> peeled p st j \<longrightarrow> seediness ! j \<le> seediness ! i"
proof -
  let ?N = "length seediness"
  let ?c = "seediness_copy st"
  have lc: "length ?c = ?N" using inv by (simp add: fp2_inv_def)
  have cp: "?c ! j = (if peeled p st j then 0 else seediness ! j)" if "j < ?N" for j
    using inv that by (simp add: fp2_inv_def)
  have ne: "?c \<noteq> []" using lc c by auto
  show "rev (argsort ?c) \<noteq> []" using argsort_top(1) [OF a ne] .
  show iN: "i < ?N" using argsort_top(2) [OF a ne] lc by (simp add: i_def)
  have top: "?c ! j \<le> ?c ! i" if "j < ?N" for j
    using argsort_top(3) [OF a ne] that lc by (simp add: i_def)
  obtain j0 where j0: "j0 < ?N" "\<not> peeled p st j0"
    using exists_unpeeled [OF inv c] by blast
  have "0 < seediness ! j0" using pos j0(1) by simp
  then have "0 < ?c ! j0" using cp [OF j0(1)] j0(2) by simp
  then have ipos: "0 < ?c ! i" using top [OF j0(1)] by linarith
  then show np: "\<not> peeled p st i" using cp [OF iN] by auto
  show "\<forall>j<?N. \<not> peeled p st j \<longrightarrow> seediness ! j \<le> seediness ! i"
  proof (intro allI impI)
    fix j assume j: "j < ?N" "\<not> peeled p st j"
    have "seediness ! j = ?c ! j" using cp [OF j(1)] j(2) by simp
    also have "\<dots> \<le> ?c ! i" by (rule top [OF j(1)])
    also have "\<dots> = seediness ! i" using cp [OF iN] np by simp
    finally show "seediness ! j \<le> seediness ! i" .
  qed
qed

text \<open>
  Claim C6, as amended: when every seediness value is strictly positive, each pass of the
  loop of \<open>fit_predict2\<close> picks a point that no sphere has claimed yet, whose seediness is
  the highest among the points not yet claimed; the loop breaks as soon as that seediness
  is below \<open>s_threshold\<close>, and otherwise the new sphere is seeded at that point.
\<close>

theorem fit_predict2_seed_highest_remaining:
  assumes "is_argsort argsort"
    and "\<forall>s\<in>set seediness. 0 < s"
    and "fp2_reach argsort embeddings seediness margins fitfunc s_threshold p_threshold st"
    and "count st < length seediness"
  shows "\<exists>i<length seediness.
           \<not> peeled p_threshold st i
         \<and> (\<forall>j<length seediness. \<not> peeled p_threshold st j \<longrightarrow> seediness ! j \<le> seediness ! i)
         \<and> (seediness ! i < s_threshold \<longrightarrow>
              fp2_body argsort embeddings seediness margins fitfunc s_threshold p_threshold st
                = Inr None)
         \<and> (\<forall>st'. fp2_body argsort embeddings seediness margins fitfunc s_threshold p_threshold st
                     = Inr (Some st')
                \<longrightarrow> spheres st' = spheres st @ [(embeddings ! i, margins ! i)])"
proof -
  define i where "i = hd (rev (argsort (seediness_copy st)))"
  have inv: "fp2_inv seediness p_threshold st" using assms(3) by (rule fp2_reach_inv)
  note s = seed_unpeeled [OF assms(1,2) inv assms(4), folded i_def]
  have br: "fp2_body argsort embeddings seediness margins fitfunc s_threshold p_threshold st = Inr None"
    if "seediness ! i < s_threshold"
    using s(1) s(2) that by (intro fp2_body_break [where i = i]) (simp_all add: i_def)
  have sp: "spheres st' = spheres st @ [(embeddings ! i, margins ! i)]"
    if "fp2_body argsort embeddings seediness margins fitfunc s_threshold p_threshold st
          = Inr (Some st')" for st'
    using fp2_body_SomeD(6) [OF that] by (simp add: i_def)
  show ?thesis using s(2) s(3) s(4) br sp by blast
qed

theorem fit_predict2_seed_highest_remaining_witness:
  "is_argsort argsort_stable
   \<and> fp2_reach argsort_stable [[0, 0], [1 / 10, 0], [5, 5], [51 / 10, 5]] [1, 9 / 10, 1, 9 / 10]
        [1 / 2, 1 / 2, 1 / 2, 1 / 2 :: real] gaussian_kernel 0 (1 / 2) (fp2_init [1, 9 / 10, 1, 9 / 10])
   \<and> (\<exists>i. i < 4 \<and> \<not> peeled (1 / 2) (fp2_init [1, 9 / 10, 1, 9 / 10] :: real fp2_state) i
          \<and> [1, 9 / 10, 1, 9 / 10 :: real] ! 0 \<le> [1, 9 / 10, 1, 9 / 10] ! i
          \<and> [1, 9 / 10, 1, 9 / 10 :: real] ! 1 \<le> [1, 9 / 10, 1, 9 / 10] ! i
          \<and> [1, 9 / 10, 1, 9 / 10 :: real] ! 2 \<le> [1, 9 / 10, 1, 9 / 10] ! i
          \<and> [1, 9 / 10, 1, 9 / 10 :: real] ! 3 \<le> [1, 9 / 10, 1, 9 / 10] ! i)"
proof -
  let ?E = "[[0, 0], [1 / 10, 0], [5, 5], [51 / 10, 5]] :: matrix"
  let ?S = "[1, 9 / 10, 1, 9 / 10] :: real list"
  let ?M = "[1 / 2, 1 / 2, 1 / 2, 1 / 2] :: real list"
  have h1: "is_argsort argsort_stable" by (rule is_argsort_stable)
  have h2: "\<forall>s\<in>set ?S. 0 < s" by simp
  have h3: "fp2_reach argsort_stable ?E ?S ?M gaussian_kernel 0 (1 / 2) (fp2_init ?S)"
    by (rule fp2_reach.init)
  have h4: "count (fp2_init ?S :: real fp2_state) < length ?S" by (simp add: fp2_init_def)
  have np: "\<not> peeled (1 / 2) (fp2_init ?S :: real fp2_state) j" for j
    by (simp add: peeled_def fp2_init_def)
  obtain i where i: "i < length ?S"
    "\<forall>j<length ?S. \<not> peeled (1 / 2) (fp2_init ?S :: real fp2_state) j \<longrightarrow> ?S ! j \<le> ?S ! i"
    using fit_predict2_seed_highest_remaining [OF h1 h2 h3 h4] by blast
  have i4: "i < 4" using i(1) by simp
  have le: "?S ! j \<le> ?S ! i" if "j < 4" for j using i(2) np that by simp
  have "?S ! 0 \<le> ?S ! i" "?S ! 1 \<le> ?S ! i" "?S ! 2 \<le> ?S ! i" "?S ! 3 \<le> ?S ! i"
    by (rule le, simp)+
  then show ?thesis using h1 h3 i4 np by blast
qed

lemma gk_neg: "gaussian_kernel [0] 1 [[0], [10]] = [Num 1, Num (exp (- 50))]"
  by (simp add: gaussian_kernel_def sq_dist_def np_div_def)

lemma exp_50: "\<not> 1 / 2 < exp (- 50 :: real)"
  using exp_neg_small [of 50] by simp

lemma neg_body1:
  "fp2_body argsort_stable [[0], [10]] [1, - 1] [1, 1] gaussian_kernel 0 (1 / 2) (fp2_init [1, - 1])
   = Inr (Some \<lparr>probs = [[Num 1, Num (exp (- 50))]], spheres = [([0], 1)],
                 seediness_copy = [0, - 1], count = 1\<rparr>)"
  using exp_50
  by (subst fp2_body_at [where i = 0])
     (simp_all add: fp2_init_def argsort_stable_def gk_neg mask_assign_def)

lemma neg_body2:
  "fp2_body argsort_stable [[0], [10]] [1, - 1] [1, 1] gaussian_kernel 0 (1 / 2)
     \<lparr>probs = [[Num 1, Num (exp (- 50))]], spheres = [([0], 1)],
      seediness_copy = [0, - 1], count = 1\<rparr>
   = Inr (Some \<lparr>probs = [[Num 1, Num (exp (- 50))], [Num 1, Num (exp (- 50))]],
                 spheres = [([0], 1), ([0], 1)],
                 seediness_copy = [0, - 1], count = 2\<rparr>)"
  using exp_50
  by (subst fp2_body_at [where i = 0])
     (simp_all add: argsort_stable_def gk_neg mask_assign_def)

text \<open>
  Claim C6 as stated covers negative seediness. There it fails: with seediness \<open>[1, -1]\<close>
  and two points far apart, the first pass peels point 0 and zeroes its entry of the copy.
  In the second pass the zero is the largest entry, so the peeled point 0 is picked again,
  its original seediness 1 passes the threshold test, and a second sphere is seeded at point
  0, although the only point left has seediness \<open>-1 < s_threshold = 0\<close>.
\<close>

theorem fit_predict2_negative_seediness_repeats_seed:
  "fp2_reach argsort_stable [[0], [10]] [1, - 1] [1, 1] gaussian_kernel 0 (1 / 2)
     \<lparr>probs = [[Num 1, Num (exp (- 50))]], spheres = [([0], 1)],
      seediness_copy = [0, - 1], count = 1\<rparr>
   \<and> peeled (1 / 2) \<lparr>probs = [[Num 1, Num (exp (- 50))]], spheres = [([0], 1 :: real)],
        seediness_copy = [0, - 1], count = 1\<rparr> 0
   \<and> \<not> peeled (1 / 2) \<lparr>probs = [[Num 1, Num (exp (- 50))]], spheres = [([0], 1 :: real)],
        seediness_copy = [0, - 1], count = 1\<rparr> 1
   \<and> [1, - 1 :: real] ! 1 < 0
   \<and> fp2_body argsort_stable [[0], [10]] [1, - 1] [1, 1] gaussian_kernel 0 (1 / 2)
        \<lparr>probs = [[Num 1, Num (exp (- 50))]], spheres = [([0], 1)],
         seediness_copy = [0, - 1], count = 1\<rparr>
      = Inr (Some \<lparr>probs = [[Num 1, Num (exp (- 50))], [Num 1, Num (exp (- 50))]],
                    spheres = [([0], 1), ([[0], [10]] ! 0, 1)],
                    seediness_copy = [0, - 1], count = 2\<rparr>)
   \<and> fit_predict2 argsort_stable [[0], [10]] [1, - 1] [1, 1] gaussian_kernel 0 (1 / 2)
      = Some (Inr ([0, 0], [([0], 1), ([0], 1)]))"
proof -
  let ?st1 = "\<lparr>probs = [[Num 1, Num (exp (- 50))]], spheres = [([0], 1 :: real)],
      seediness_copy = [0, - 1], count = 1\<rparr>"
  let ?st2 = "\<lparr>probs = [[Num 1, Num (exp (- 50))], [Num 1, Num (exp (- 50))]],
                 spheres = [([0], 1 :: real), ([0], 1)],
                 seediness_copy = [0, - 1], count = 2\<rparr>"
  have r: "fp2_reach argsort_stable [[0], [10]] [1, - 1] [1, 1] gaussian_kernel 0 (1 / 2) ?st1"
    by (rule fp2_reach.step [OF fp2_reach.init _ neg_body1]) (simp add: fp2_init_def)
  have p0: "peeled (1 / 2) ?st1 0" by (simp add: peeled_def)
  have p1: "\<not> peeled (1 / 2) ?st1 1" using exp_50 by (simp add: peeled_def)
  have "fp2_loop argsort_stable [[0], [10]] [1, - 1] [1, 1] gaussian_kernel 0 (1 / 2) (fp2_init [1, - 1])
      = fp2_loop argsort_stable [[0], [10]] [1, - 1] [1, 1] gaussian_kernel 0 (1 / 2) ?st1"
    by (rule fp2_loop_continue [OF _ neg_body1]) (simp add: fp2_init_def)
  also have "\<dots> = fp2_loop argsort_stable [[0], [10]] [1, - 1] [1, 1] gaussian_kernel 0 (1 / 2) ?st2"
    by (rule fp2_loop_continue [OF _ neg_body2]) simp
  also have "\<dots> = Some (Inr ?st2)"
    by (rule fp2_loop_exit) simp
  finally have f: "fit_predict2 argsort_stable [[0], [10]] [1, - 1] [1, 1] gaussian_kernel 0 (1 / 2)
      = Some (Inr ([0, 0], [([0], 1), ([0], 1)]))"
    by (simp add: fit_predict2_def hstack_rows_def np_argmax_def upt_conv_Cons)
  show ?thesis using r p0 p1 neg_body2 f by simp
qed

section \<open>Greedy seed decoder: termination\<close>

lemma filter_id_pos:
  assumes "i < length bs" "bs ! i"
  shows "0 < length (filter id bs)"
proof -
  have "bs ! i \<in> set bs" using assms(1) by (rule nth_mem)
  then have "bs ! i \<in> set (filter id bs)" using assms(2) by simp
  then have "filter id bs \<noteq> []" by (metis empty_iff empty_set)
  then show ?thesis by simp
qed

text \<open>
  One pass from a state whose copy has the length of the input, for any kernel that is 1 at
  its own seed: the body breaks, or it claims at least the seed.
\<close>

lemma fp2_body_progress:
  assumes a: "is_argsort argsort"
    and le: "length embeddings = length seediness" and lm: "length margins = length seediness"
    and k: "seed_is_one fitfunc embeddings margins" and p: "p_threshold < 1"
    and lc: "length (seediness_copy st) = length seediness"
    and c: "count st < length seediness"
  shows "fp2_body argsort embeddings seediness margins fitfunc s_threshold p_threshold st
           = Inr None
       \<or> (\<exists>st'. fp2_body argsort embeddings seediness margins fitfunc s_threshold
                   p_threshold st = Inr (Some st')
              \<and> length (seediness_copy st') = length seediness \<and> count st < count st')"
proof -
  let ?N = "length seediness"
  define i where "i = hd (rev (argsort (seediness_copy st)))"
  define pv where "pv = fitfunc (embeddings ! i) (margins ! i) embeddings"
  define ci where "ci = map (\<lambda>v. np_gt v p_threshold) pv"
  have ne: "seediness_copy st \<noteq> []" using lc c by auto
  have o: "rev (argsort (seediness_copy st)) \<noteq> []" using argsort_top(1) [OF a ne] .
  have iN: "i < ?N" using argsort_top(2) [OF a ne] lc by (simp add: i_def)
  show ?thesis
  proof (cases "seediness ! i < s_threshold")
    case True
    then have "fp2_body argsort embeddings seediness margins fitfunc s_threshold p_threshold st
           = Inr None"
      using o iN by (intro fp2_body_break [where i = i]) (simp_all add: i_def)
    then show ?thesis by simp
  next
    case False
    have ki: "length pv = length embeddings \<and> pv ! i = Num 1"
      using k iN le unfolding seed_is_one_def pv_def by simp
    have lpv: "length pv = ?N" using ki le by simp
    have "ci ! i" using ki p iN lpv by (simp add: ci_def)
    then have pos: "0 < length (filter id ci)"
      using iN lpv by (intro filter_id_pos [of i]) (simp_all add: ci_def)
    let ?st' = "\<lparr>probs = probs st @ [pv], spheres = spheres st @ [(embeddings ! i, margins ! i)],
            seediness_copy = mask_assign ci 0 (seediness_copy st),
            count = count st + length (filter id ci)\<rparr>"
    have "fp2_body argsort embeddings seediness margins fitfunc s_threshold p_threshold st
           = Inr (Some ?st')"
      unfolding ci_def pv_def
      using o iN False le lm lc lpv
      by (intro fp2_body_at) (simp_all add: i_def pv_def)
    moreover have "length (seediness_copy ?st') = ?N"
      using lc lpv by (simp add: mask_assign_def ci_def)
    moreover have "count st < count ?st'" using pos by simp
    ultimately show ?thesis by blast
  qed
qed

lemma fp2_loop_terminates:
  assumes a: "is_argsort argsort"
    and le: "length embeddings = length seediness" and lm: "length margins = length seediness"
    and k: "seed_is_one fitfunc embeddings margins" and p: "p_threshold < 1"
    and lc: "length (seediness_copy st) = length seediness"
  shows "\<exists>st'. fp2_loop argsort embeddings seediness margins fitfunc s_threshold p_threshold st
           = Some (Inr st')"
  using lc
proof (induction "length seediness - count st" arbitrary: st rule: less_induct)
  case less
  show ?case
  proof (cases "count st < length seediness")
    case False
    then show ?thesis by (simp add: fp2_loop_exit)
  next
    case True
    from fp2_body_progress [OF a le lm k p less.prems True, of s_threshold]
    show ?thesis
    proof (elim disjE exE conjE)
      assume "fp2_body argsort embeddings seediness margins fitfunc s_threshold p_threshold st
           = Inr None"
      then show ?thesis using True by (simp add: fp2_loop_break)
    next
      fix st'
      assume b: "fp2_body argsort embeddings seediness margins fitfunc s_threshold p_threshold st
           = Inr (Some st')"
        and l: "length (seediness_copy st') = length seediness" and c: "count st < count st'"
      have "length seediness - count st' < length seediness - count st" using True c by linarith
      then obtain r where "fp2_loop argsort embeddings seediness margins fitfunc s_threshold
             p_threshold st' = Some (Inr r)"
        using less.hyps [OF _ l] by blast
      then show ?thesis using fp2_loop_continue [OF True b] by simp
    qed
  qed
qed

text \<open>
  Claim C7, as amended: for \<open>N\<close> embeddings, \<open>N\<close> seediness values, \<open>N\<close> margins,
  \<open>p_threshold < 1\<close> and any kernel that evaluates to 1 at the seed point itself, the loop
  of \<open>fit_predict2\<close> terminates and the decoder returns a result: every pass that does not
  break claims at least the seed and strictly increases \<open>count\<close>. The kernel is the
  parameter \<open>fitfunc\<close> of the decoder, so the statement does not depend on how a kernel
  computes its values: it covers the kernels of the source as they run on floats, whenever
  their value at the seed is 1 and not NaN.
\<close>

theorem fit_predict2_terminates:
  assumes "is_argsort argsort"
    and "length embeddings = length seediness" and "length margins = length seediness"
    and "seed_is_one fitfunc embeddings margins" and "p_threshold < 1"
  shows "(\<exists>pred_labels spheres.
            fit_predict2 argsort embeddings seediness margins fitfunc s_threshold p_threshold
              = Some (Inr (pred_labels, spheres)))
       \<and> (\<forall>i<length seediness.
            np_gt (fitfunc (embeddings ! i) (margins ! i) embeddings ! i) p_threshold)
       \<and> (\<forall>st st'. length (seediness_copy st) = length seediness \<and> count st < length seediness
              \<and> fp2_body argsort embeddings seediness margins fitfunc s_threshold
                   p_threshold st = Inr (Some st')
            \<longrightarrow> count st < count st')"
proof (intro conjI allI impI)
  obtain r where "fp2_loop argsort embeddings seediness margins fitfunc s_threshold
        p_threshold (fp2_init seediness) = Some (Inr r)"
    using fp2_loop_terminates [OF assms, of "fp2_init seediness"]
    by (auto simp: fp2_init_def)
  then show "\<exists>pred_labels spheres.
            fit_predict2 argsort embeddings seediness margins fitfunc s_threshold p_threshold
              = Some (Inr (pred_labels, spheres))"
    by (simp add: fit_predict2_def)
next
  fix i assume "i < length seediness"
  then have "fitfunc (embeddings ! i) (margins ! i) embeddings ! i = Num 1"
    using assms(2,4) unfolding seed_is_one_def by simp
  then show "np_gt (fitfunc (embeddings ! i) (margins ! i) embeddings ! i) p_threshold"
    using assms(5) by simp
next
  fix st st' :: "'a fp2_state"
  assume h: "length (seediness_copy st) = length seediness \<and> count st < length seediness
              \<and> fp2_body argsort embeddings seediness margins fitfunc s_threshold
                   p_threshold st = Inr (Some st')"
  then show "count st < count st'"
    using fp2_body_progress [OF assms, of st s_threshold] by auto
qed

lemma seed_is_one_two_points: "seed_is_one gaussian_kernel [[0], [10]] [1, 1]"
  by (simp add: seed_is_one_def less_Suc_eq gaussian_kernel_def sq_dist_def np_div_def)

theorem fit_predict2_terminates_witness:
  "is_argsort argsort_stable
   \<and> seed_is_one gaussian_kernel [[0], [10]] [1, 1]
   \<and> (\<exists>pred_labels spheres.
         fit_predict2 argsort_stable [[0], [10]] [1, - 1] [1, 1] gaussian_kernel 0 (1 / 2)
           = Some (Inr (pred_labels, spheres)))
   \<and> np_gt (gaussian_kernel ([[0], [10]] ! 1) ([1, 1] ! 1) [[0], [10]] ! 1) (1 / 2)"
  using fit_predict2_terminates [OF is_argsort_stable _ _ seed_is_one_two_points,
      of "[1, - 1]" "1 / 2" 0]
    is_argsort_stable seed_is_one_two_points
  by (simp add: less_Suc_eq)

lemma stuck_body:
  assumes "seediness_copy st = [1]" "count st = 0"
  shows "\<exists>st'. fp2_body argsort_stable [[0]] [1] [0] gaussian_kernel 0 (1 / 2) st = Inr (Some st')
            \<and> seediness_copy st' = [1] \<and> count st' = 0"
  using assms
  by (simp add: fp2_body_def argsort_stable_def gaussian_kernel_def sq_dist_def np_div_def
        mask_assign_def Let_def)

lemma stuck_loop:
  assumes "fp2_loop argsort embeddings seediness margins fitfunc s_threshold p_threshold st = Some y"
  shows "\<not> stuck argsort embeddings seediness margins fitfunc s_threshold p_threshold st"
proof (rule fp2_loop.raw_induct
    [where P = "\<lambda>a e s m f t p st y. \<not> stuck a e s m f t p st", OF _ assms])
  fix loop :: "argsort \<Rightarrow> matrix \<Rightarrow> real list \<Rightarrow> real list \<Rightarrow> real kernel \<Rightarrow> real \<Rightarrow> real
    \<Rightarrow> real fp2_state \<Rightarrow> (py_error + real fp2_state) option"
  fix a e s m f t p st y
  assume IH: "\<And>a e s m f t p st y. loop a e s m f t p st = Some y \<Longrightarrow> \<not> stuck a e s m f t p st"
    and step: "(if count st < length s
          then case fp2_body a e s m f t p st of Inl e \<Rightarrow> Some (Inl e) | Inr None \<Rightarrow> Some (Inr st)
               | Inr (Some st') \<Rightarrow> loop a e s m f t p st'
          else Some (Inr st)) = Some y"
  show "\<not> stuck a e s m f t p st"
  proof
    assume h: "stuck a e s m f t p st"
    then have eqs: "a = argsort_stable" "e = [[0]]" "s = [1]" "m = [0]"
      "f = gaussian_kernel" "t = 0" "p = 1 / 2"
      and inv: "seediness_copy st = [1]" "count st = 0"
      by (simp_all add: stuck_def)
    obtain st' where b: "fp2_body argsort_stable [[0]] [1] [0] gaussian_kernel 0 (1 / 2) st
         = Inr (Some st')" and i: "seediness_copy st' = [1]" "count st' = 0"
      using stuck_body [OF inv] by blast
    have "loop argsort_stable [[0]] [1] [0] gaussian_kernel 0 (1 / 2) st' = Some y"
      using step [unfolded eqs] inv(2) by (simp add: b)
    then have "\<not> stuck argsort_stable [[0]] [1] [0] gaussian_kernel 0 (1 / 2) st'"
      by (rule IH)
    then show False using i by (simp add: stuck_def)
  qed
qed

text \<open>
  Claim C7 as stated has the loop terminate on every finite input with \<open>p_threshold < 1\<close>.
  A margin of 0 at the seed is such an input: the kernel divides \<open>0\<close> by \<open>0\<close>, the seed's
  probability is NaN, NaN exceeds no threshold, nothing is claimed, and the next pass starts
  from the same state. The decoder never returns.
\<close>

theorem fit_predict2_zero_margin_diverges:
  "fit_predict2 argsort_stable [[0]] [1] [0] gaussian_kernel 0 (1 / 2) = None"
proof -
  have "fp2_loop argsort_stable [[0]] [1] [0] gaussian_kernel 0 (1 / 2) (fp2_init [1]) = None"
    using stuck_loop [of argsort_stable "[[0]]" "[1]" "[0]" gaussian_kernel 0 "1 / 2" "fp2_init [1]"]
    by (cases "fp2_loop argsort_stable [[0]] [1] [0] gaussian_kernel 0 (1 / 2) (fp2_init [1])")
       (simp_all add: fp2_init_def stuck_def)
  then show ?thesis by (simp add: fit_predict2_def)
qed

section \<open>The first-claim decoder\<close>

text \<open>
  Claim C10: on equally long, non-empty embeddings and seediness, \<open>fit_predict1\<close> raises
  NameError in its first pass, at the first of the three unbound names that it reads,
  \<open>s_threshold\<close>, before any label is returned; on an empty input it returns an empty label
  vector and an empty list of spheres. Only the binding of \<open>s_threshold\<close> matters: the
  other two names are never reached.
\<close>

theorem fit_predict1_name_error:
  assumes "is_argsort argsort" and "length seediness = length embeddings"
    and "g_s_threshold globals = None"
  shows "(embeddings \<noteq> [] \<longrightarrow>
            fit_predict1 globals argsort embeddings seediness margins threshold cluster_all
              = Some (Inl (NameError ''s_threshold'')))
       \<and> (embeddings = [] \<longrightarrow>
            fit_predict1 globals argsort embeddings seediness margins threshold cluster_all
              = Some (Inr ([], [])))"
proof (intro conjI impI)
  assume ne: "embeddings \<noteq> []"
  let ?st = "fp1_init embeddings seediness :: 'a fp1_state"
  have sne: "seediness \<noteq> []" using ne assms(2) by auto
  have o: "rev (argsort seediness) \<noteq> []" and i: "hd (rev (argsort seediness)) < length seediness"
    using argsort_top(1,2) [OF assms(1) sne] by simp_all
  have b: "fp1_body globals argsort embeddings seediness margins ?st
           = Inl (NameError ''s_threshold'')"
    using o i assms(3) by (simp add: fp1_body_def fp1_init_def Let_def load_global_def)
  have nall: "\<not> list_all id (check_completion ?st)"
    using sne by (cases seediness) (simp_all add: fp1_init_def)
  have "fp1_loop globals argsort embeddings seediness margins ?st
          = Some (Inl (NameError ''s_threshold''))"
    using nall b by (subst fp1_loop.simps) simp
  then show "fit_predict1 globals argsort embeddings seediness margins threshold cluster_all
               = Some (Inl (NameError ''s_threshold''))"
    by (simp add: fit_predict1_def)
next
  assume e: "embeddings = []"
  then have s: "seediness = []" using assms(2) by simp
  have "fp1_loop globals argsort [] [] margins (fp1_init [] []) = Some (Inr (fp1_init [] []))"
    by (subst fp1_loop.simps) (simp add: fp1_init_def)
  then show "fit_predict1 globals argsort embeddings seediness margins threshold cluster_all
               = Some (Inr ([], []))"
    by (simp add: fit_predict1_def e s fp1_init_def cluster_remainder_def)
qed

theorem fit_predict1_name_error_witness:
  "is_argsort argsort_stable
   \<and> fit_predict1 inference_module_globals argsort_stable [[0], [10]] [1, 1 / 2] [1, 1 :: real]
        (9 / 10) False = Some (Inl (NameError ''s_threshold''))
   \<and> fit_predict1 inference_module_globals argsort_stable [] [] ([] :: real list) (9 / 10) True
        = Some (Inr ([], []))"
proof -
  have g: "g_s_threshold (inference_module_globals :: real module_globals) = None"
    by (simp add: inference_module_globals_def)
  have a: "fit_predict1 inference_module_globals argsort_stable [[0], [10]] [1, 1 / 2] [1, 1 :: real]
        (9 / 10) False = Some (Inl (NameError ''s_threshold''))"
    using fit_predict1_name_error [OF is_argsort_stable _ g, of "[1, 1 / 2]" "[[0], [10]]"
        "[1, 1]" "9 / 10" False]
    by simp
  have b: "fit_predict1 inference_module_globals argsort_stable [] [] ([] :: real list) (9 / 10) True
        = Some (Inr ([], []))"
    using fit_predict1_name_error [OF is_argsort_stable _ g, of "[]" "[]" "[]" "9 / 10" True]
    by simp
  show ?thesis using a b is_argsort_stable by simp
qed

section \<open>Greedy seed decoder: the labels\<close>

lemma argmax_scan_range:
  "argmax_scan mp best i vs = best \<or> (i \<le> argmax_scan mp best i vs \<and> argmax_scan mp best i vs < i + length vs)"
proof (induction vs arbitrary: mp best i)
  case Nil
  show ?case by simp
next
  case (Cons v vs)
  show ?case
    using Cons.IH [of v i "Suc i"] Cons.IH [of mp best "Suc i"] by auto
qed

lemma np_argmax_less: "row \<noteq> [] \<Longrightarrow> np_argmax row < length row"
proof (cases row)
  case Nil
  then show "row \<noteq> [] \<Longrightarrow> ?thesis" by simp
next
  case (Cons v vs)
  then show ?thesis using argmax_scan_range [of v 0 1 vs] by (auto simp: np_argmax_def)
qed

lemma argmax_scan_keep:
  assumes "\<forall>v\<in>set vs. \<exists>r. v = Num r \<and> r \<le> m"
  shows "argmax_scan (Num m) best i vs = best"
  using assms by (induction vs arbitrary: i) auto

lemma argmax_scan_find:
  assumes "t < length vs" "vs ! t = Num a" "m < a"
    and "\<forall>j<t. \<exists>r. vs ! j = Num r \<and> r < a"
    and "\<forall>j<length vs. t < j \<longrightarrow> (\<exists>r. vs ! j = Num r \<and> r \<le> a)"
  shows "argmax_scan (Num m) best i vs = i + t"
  using assms
proof (induction vs arbitrary: m best i t)
  case Nil
  then show ?case by simp
next
  case (Cons v vs)
  show ?case
  proof (cases t)
    case 0
    have v: "v = Num a" using Cons.prems(2) 0 by simp
    have "\<forall>u\<in>set vs. \<exists>r. u = Num r \<and> r \<le> a"
    proof
      fix u assume "u \<in> set vs"
      then obtain j where j: "j < length vs" "vs ! j = u" by (auto simp: in_set_conv_nth)
      then have "Suc j < length (v # vs)" "t < Suc j" using 0 by simp_all
      then have "\<exists>r. (v # vs) ! Suc j = Num r \<and> r \<le> a" using Cons.prems(5) by blast
      then show "\<exists>r. u = Num r \<and> r \<le> a" using j by simp
    qed
    then have "argmax_scan (Num a) i (Suc i) vs = i" by (rule argmax_scan_keep)
    then show ?thesis using v Cons.prems(3) 0 by simp
  next
    case (Suc t')
    have "0 < t" using Suc by simp
    then have "\<exists>r. (v # vs) ! 0 = Num r \<and> r < a" using Cons.prems(4) by blast
    then obtain r where r: "v = Num r" "r < a" by auto
    have t': "t' < length vs" "vs ! t' = Num a" using Cons.prems(1,2) Suc by simp_all
    have before: "\<forall>j<t'. \<exists>r. vs ! j = Num r \<and> r < a"
    proof (intro allI impI)
      fix j assume "j < t'"
      then have "Suc j < t" using Suc by simp
      then have "\<exists>r. (v # vs) ! Suc j = Num r \<and> r < a" using Cons.prems(4) by blast
      then show "\<exists>r. vs ! j = Num r \<and> r < a" by simp
    qed
    have after: "\<forall>j<length vs. t' < j \<longrightarrow> (\<exists>r. vs ! j = Num r \<and> r \<le> a)"
    proof (intro allI impI)
      fix j assume "j < length vs" "t' < j"
      then have "Suc j < length (v # vs)" "t < Suc j" using Suc by simp_all
      then have "\<exists>r. (v # vs) ! Suc j = Num r \<and> r \<le> a" using Cons.prems(5) by blast
      then show "\<exists>r. vs ! j = Num r \<and> r \<le> a" by simp
    qed
    show ?thesis
    proof (cases "r \<le> m")
      case True
      then show ?thesis
        using Cons.IH [OF t' Cons.prems(3) before after, of best "Suc i"] r Suc by simp
    next
      case False
      then show ?thesis
        using Cons.IH [OF t' r(2) before after, of i "Suc i"] r Suc by simp
    qed
  qed
qed

text \<open>
  \<open>np.argmax\<close> returns the first index of the maximum: an entry wins its row when the
  entries before it are smaller and the entries after it are not larger.
\<close>

lemma np_argmax_first:
  assumes k: "k < length row" and a: "row ! k = Num a"
    and b: "\<forall>j<k. \<exists>r. row ! j = Num r \<and> r < a"
    and o: "\<forall>j<length row. k < j \<longrightarrow> (\<exists>r. row ! j = Num r \<and> r \<le> a)"
  shows "np_argmax row = k"
proof (cases row)
  case Nil
  then show ?thesis using k by simp
next
  case (Cons v vs)
  show ?thesis
  proof (cases k)
    case 0
    have v: "v = Num a" using a 0 Cons by simp
    have "\<forall>u\<in>set vs. \<exists>r. u = Num r \<and> r \<le> a"
    proof
      fix u assume "u \<in> set vs"
      then obtain j where j: "j < length vs" "vs ! j = u" by (auto simp: in_set_conv_nth)
      then have "Suc j < length row" "k < Suc j" using Cons 0 by simp_all
      then have "\<exists>r. row ! Suc j = Num r \<and> r \<le> a" using o by blast
      then show "\<exists>r. u = Num r \<and> r \<le> a" using j Cons by simp
    qed
    then have "argmax_scan (Num a) 0 1 vs = 0" by (rule argmax_scan_keep)
    then show ?thesis using v Cons 0 by (simp add: np_argmax_def)
  next
    case (Suc t)
    have "0 < k" using Suc by simp
    then have "\<exists>r. row ! 0 = Num r \<and> r < a" using b by blast
    then obtain m where m: "v = Num m" "m < a" using Cons by auto
    have t: "t < length vs" "vs ! t = Num a" using k a Cons Suc by simp_all
    have before: "\<forall>j<t. \<exists>r. vs ! j = Num r \<and> r < a"
    proof (intro allI impI)
      fix j assume "j < t"
      then have "Suc j < k" using Suc by simp
      then have "\<exists>r. row ! Suc j = Num r \<and> r < a" using b by blast
      then show "\<exists>r. vs ! j = Num r \<and> r < a" using Cons by simp
    qed
    have after: "\<forall>j<length vs. t < j \<longrightarrow> (\<exists>r. vs ! j = Num r \<and> r \<le> a)"
    proof (intro allI impI)
      fix j assume "j < length vs" "t < j"
      then have "Suc j < length row" "k < Suc j" using Cons Suc by simp_all
      then have "\<exists>r. row ! Suc j = Num r \<and> r \<le> a" using o by blast
      then show "\<exists>r. vs ! j = Num r \<and> r \<le> a" using Cons by simp
    qed
    have "argmax_scan (Num m) 0 1 vs = 1 + t"
      by (rule argmax_scan_find [OF t m(2) before after])
    then show ?thesis using m Cons Suc by (simp add: np_argmax_def)
  qed
qed

lemma seeded_init: "seeded fitfunc embeddings margins p (fp2_init seediness) []"
  by (simp add: seeded_def fp2_init_def)

lemma seeded_step:
  assumes a: "is_argsort argsort"
    and pos: "\<forall>s\<in>set seediness. 0 < s"
    and inv: "fp2_inv seediness p_threshold st"
    and c: "count st < length seediness"
    and b: "fp2_body argsort embeddings seediness margins fitfunc s_threshold p_threshold st
              = Inr (Some st')"
    and sd: "seeded fitfunc embeddings margins p_threshold st seeds"
  shows "seeded fitfunc embeddings margins p_threshold st'
           (seeds @ [hd (rev (argsort (seediness_copy st)))])"
proof -
  define i where "i = hd (rev (argsort (seediness_copy st)))"
  define pv where "pv = fitfunc (embeddings ! i) (margins ! i) embeddings"
  note d = fp2_body_SomeD [OF b, folded i_def, folded pv_def]
  note s = seed_unpeeled [OF a pos inv c, folded i_def]
  have ls: "length seeds = length (probs st)" using sd by (simp add: seeded_def)
  have lsp: "length (spheres st) = length (probs st)" using inv by (simp add: fp2_inv_def)
  have pr: "probs st' = probs st @ [pv]" and sp: "spheres st' = spheres st @ [(embeddings ! i, margins ! i)]"
    by (simp_all add: d(6))
  have old: "seeds ! k < length embeddings
       \<and> probs st ! k = fitfunc (embeddings ! (seeds ! k)) (margins ! (seeds ! k)) embeddings
       \<and> spheres st ! k = (embeddings ! (seeds ! k), margins ! (seeds ! k))
       \<and> (\<forall>j<k. \<not> np_gt (probs st ! j ! (seeds ! k)) p_threshold)" if "k < length seeds" for k
    using sd that unfolding seeded_def by blast
  have "(seeds @ [i]) ! k < length embeddings
       \<and> probs st' ! k
           = fitfunc (embeddings ! ((seeds @ [i]) ! k)) (margins ! ((seeds @ [i]) ! k)) embeddings
       \<and> spheres st' ! k = (embeddings ! ((seeds @ [i]) ! k), margins ! ((seeds @ [i]) ! k))
       \<and> (\<forall>j<k. \<not> np_gt (probs st' ! j ! ((seeds @ [i]) ! k)) p_threshold)"
    if k: "k < length (seeds @ [i])" for k
  proof (cases "k < length seeds")
    case True
    have e1: "(seeds @ [i]) ! k = seeds ! k" using True by (simp add: nth_append)
    have e2: "probs st' ! k = probs st ! k" using True ls by (simp add: pr nth_append)
    have e3: "spheres st' ! k = spheres st ! k" using True ls lsp by (simp add: sp nth_append)
    have e4: "probs st' ! j = probs st ! j" if "j < k" for j
      using that True ls by (simp add: pr nth_append)
    have "\<forall>j<k. \<not> np_gt (probs st' ! j ! (seeds ! k)) p_threshold"
      using old [OF True] e4 by metis
    then show ?thesis using old [OF True] unfolding e1 e2 e3 by blast
  next
    case False
    then have ke: "k = length seeds" using k by simp
    have e1: "(seeds @ [i]) ! k = i" using ke by simp
    have e2: "probs st' ! k = pv" using ke ls by (simp add: pr nth_append)
    have e3: "spheres st' ! k = (embeddings ! i, margins ! i)" using ke ls lsp by (simp add: sp nth_append)
    have np: "\<not> np_gt (probs st' ! j ! i) p_threshold" if "j < k" for j
    proof -
      have "probs st ! j \<in> set (probs st)" using that ke ls by simp
      moreover have "probs st' ! j = probs st ! j" using that ke ls by (simp add: pr nth_append)
      ultimately show ?thesis using s(3) by (auto simp: peeled_def)
    qed
    show ?thesis unfolding e1 e2 e3 using d(2) np by (simp add: pv_def)
  qed
  moreover have "length (seeds @ [i]) = length (probs st')" using ls by (simp add: pr)
  ultimately show ?thesis unfolding seeded_def i_def by blast
qed

lemma fp2_reach_seeded:
  assumes a: "is_argsort argsort"
    and pos: "\<forall>s\<in>set seediness. 0 < s"
    and r: "fp2_reach argsort embeddings seediness margins fitfunc s_threshold p_threshold st"
  shows "\<exists>seeds. seeded fitfunc embeddings margins p_threshold st seeds"
  using r
proof (induction rule: fp2_reach.induct)
  case init
  show ?case using seeded_init by blast
next
  case (step st st')
  then obtain seeds where "seeded fitfunc embeddings margins p_threshold st seeds" by blast
  then show ?case
    using seeded_step [OF a pos fp2_reach_inv [OF step.hyps(1)] step.hyps(2,3)] by blast
qed

lemma fp2_loop_reach:
  assumes "fp2_loop argsort embeddings seediness margins fitfunc s_threshold p_threshold st = Some y"
  shows "fp2_reach argsort embeddings seediness margins fitfunc s_threshold p_threshold st \<longrightarrow>
         (\<forall>st'. y = Inr st' \<longrightarrow>
            fp2_reach argsort embeddings seediness margins fitfunc s_threshold p_threshold st')"
proof (rule fp2_loop.raw_induct
    [where P = "\<lambda>a e s m f t p st y. fp2_reach a e s m f t p st \<longrightarrow>
         (\<forall>st'. y = Inr st' \<longrightarrow> fp2_reach a e s m f t p st')", OF _ assms])
  fix loop :: "argsort \<Rightarrow> matrix \<Rightarrow> real list \<Rightarrow> 'a list \<Rightarrow> 'a kernel \<Rightarrow> real \<Rightarrow> real
    \<Rightarrow> 'a fp2_state \<Rightarrow> (py_error + 'a fp2_state) option"
  fix a e s m f t p st y
  assume IH: "\<And>a e s m f t p st y. loop a e s m f t p st = Some y \<Longrightarrow>
        fp2_reach a e s m f t p st \<longrightarrow> (\<forall>st'. y = Inr st' \<longrightarrow> fp2_reach a e s m f t p st')"
    and step: "(if count st < length s
          then case fp2_body a e s m f t p st of Inl e \<Rightarrow> Some (Inl e) | Inr None \<Rightarrow> Some (Inr st)
               | Inr (Some st') \<Rightarrow> loop a e s m f t p st'
          else Some (Inr st)) = Some y"
  show "fp2_reach a e s m f t p st \<longrightarrow> (\<forall>st'. y = Inr st' \<longrightarrow> fp2_reach a e s m f t p st')"
  proof (intro impI allI)
    fix st'
    assume r: "fp2_reach a e s m f t p st" and y: "y = Inr st'"
    show "fp2_reach a e s m f t p st'"
    proof (cases "count st < length s")
      case False
      then show ?thesis using step r y by simp
    next
      case True
      show ?thesis
      proof (cases "fp2_body a e s m f t p st")
        case (Inl err)
        then show ?thesis using step True y by simp
      next
        case (Inr res)
        show ?thesis
        proof (cases res)
          case None
          then show ?thesis using step True Inr r y by simp
        next
          case (Some st'')
          have "loop a e s m f t p st'' = Some y" using step True Inr Some by simp
          moreover have "fp2_reach a e s m f t p st''"
            using fp2_reach.step [OF r True] Inr Some by simp
          ultimately show ?thesis using IH y by blast
        qed
      qed
    qed
  qed
qed

lemma hstack_rows_nth:
  assumes "cols \<noteq> []" and "\<forall>col\<in>set cols. length col = n"
  shows "hstack_rows cols = map (\<lambda>r. map (\<lambda>col. col ! r) cols) [0..<n]"
  using assms by (cases cols) (simp_all add: hstack_rows_def)

lemma seed_row_argmax:
  assumes sd: "seeded fitfunc embeddings margins p_threshold st seeds"
    and k1: "seed_is_one fitfunc embeddings margins"
    and ku: "kernel_in_unit fitfunc embeddings margins"
    and p: "p_threshold < 1"
    and k: "k < length seeds"
  shows "np_argmax (map (\<lambda>col. col ! (seeds ! k)) (probs st)) = k"
proof -
  let ?n = "seeds ! k"
  let ?row = "map (\<lambda>col. col ! ?n) (probs st)"
  have ls: "length seeds = length (probs st)" using sd unfolding seeded_def by blast
  have at: "seeds ! j < length embeddings
       \<and> probs st ! j = fitfunc (embeddings ! (seeds ! j)) (margins ! (seeds ! j)) embeddings
       \<and> (\<forall>i<j. \<not> np_gt (probs st ! i ! (seeds ! j)) p_threshold)" if "j < length seeds" for j
    using sd that unfolding seeded_def by blast
  have nN: "?n < length embeddings" using at [OF k] by blast
  have val: "\<exists>v. ?row ! j = Num v \<and> v \<le> 1" if "j < length seeds" for j
  proof -
    have "seeds ! j < length embeddings" using at [OF that] by blast
    then have "\<exists>v. fitfunc (embeddings ! (seeds ! j)) (margins ! (seeds ! j)) embeddings ! ?n = Num v
        \<and> v \<le> 1"
      using ku nN unfolding kernel_in_unit_def by blast
    moreover have "?row ! j
        = fitfunc (embeddings ! (seeds ! j)) (margins ! (seeds ! j)) embeddings ! ?n"
      using at [OF that] that ls by simp
    ultimately show ?thesis by simp
  qed
  have self: "?row ! k = Num 1"
  proof -
    have "fitfunc (embeddings ! ?n) (margins ! ?n) embeddings ! ?n = Num 1"
      using k1 nN unfolding seed_is_one_def by blast
    moreover have "?row ! k = fitfunc (embeddings ! ?n) (margins ! ?n) embeddings ! ?n"
      using at [OF k] k ls by simp
    ultimately show ?thesis by simp
  qed
  have before: "\<forall>j<k. \<exists>r. ?row ! j = Num r \<and> r < 1"
  proof (intro allI impI)
    fix j assume jk: "j < k"
    then have jl: "j < length seeds" using k by simp
    obtain v where v: "?row ! j = Num v" using val [OF jl] by blast
    have "\<not> np_gt (probs st ! j ! ?n) p_threshold" using at [OF k] jk by blast
    moreover have "?row ! j = probs st ! j ! ?n" using jl ls by simp
    ultimately have "\<not> np_gt (Num v) p_threshold" using v by simp
    then have "v \<le> p_threshold" by simp
    then show "\<exists>r. ?row ! j = Num r \<and> r < 1" using v p by auto
  qed
  have after: "\<forall>j<length ?row. k < j \<longrightarrow> (\<exists>r. ?row ! j = Num r \<and> r \<le> 1)"
  proof (intro allI impI)
    fix j assume "j < length ?row" "k < j"
    then have "j < length seeds" using ls by simp
    then show "\<exists>r. ?row ! j = Num r \<and> r \<le> 1" by (rule val)
  qed
  have kr: "k < length ?row" using k ls by simp
  show ?thesis by (rule np_argmax_first [OF kr self before after])
qed

lemma labels_of_seeded:
  assumes sd: "seeded fitfunc embeddings margins p_threshold st seeds"
    and inv: "fp2_inv seediness p_threshold st"
    and le: "length embeddings = length seediness"
    and k1: "seed_is_one fitfunc embeddings margins"
    and ku: "kernel_in_unit fitfunc embeddings margins"
    and p: "p_threshold < 1"
    and ne: "probs st \<noteq> []"
  shows "set (map (\<lambda>row. int (np_argmax row)) (hstack_rows (probs st)))
           = int ` {..<length (spheres st)}"
    and "length (map (\<lambda>row. int (np_argmax row)) (hstack_rows (probs st))) = length embeddings"
proof -
  let ?N = "length seediness"
  let ?m = "length (probs st)"
  let ?row = "\<lambda>n. map (\<lambda>col. col ! n) (probs st)"
  have cols: "\<forall>col\<in>set (probs st). length col = ?N" using inv by (simp add: fp2_inv_def)
  have lsp: "length (spheres st) = ?m" using inv by (simp add: fp2_inv_def)
  have ls: "length seeds = ?m" using sd unfolding seeded_def by blast
  have hs: "hstack_rows (probs st) = map ?row [0..<?N]" using ne cols by (rule hstack_rows_nth)
  show "length (map (\<lambda>row. int (np_argmax row)) (hstack_rows (probs st))) = length embeddings"
    by (simp add: hs le)
  have lab: "set (map (\<lambda>row. int (np_argmax row)) (hstack_rows (probs st)))
      = (\<lambda>n. int (np_argmax (?row n))) ` {..<?N}"
    by (auto simp: hs)
  have sub: "np_argmax (?row n) < ?m" for n
    using ne np_argmax_less [of "?row n"] by simp
  have sup: "\<exists>n<?N. np_argmax (?row n) = k" if "k < ?m" for k
  proof -
    have kl: "k < length seeds" using that ls by simp
    have "seeds ! k < length embeddings" using sd kl unfolding seeded_def by blast
    moreover have "np_argmax (?row (seeds ! k)) = k"
      by (rule seed_row_argmax [OF sd k1 ku p kl])
    ultimately show ?thesis using le by auto
  qed
  have "(\<lambda>n. int (np_argmax (?row n))) ` {..<?N} = int ` {..<?m}"
  proof (intro set_eqI iffI)
    fix x assume "x \<in> (\<lambda>n. int (np_argmax (?row n))) ` {..<?N}"
    then show "x \<in> int ` {..<?m}" using sub by auto
  next
    fix x assume "x \<in> int ` {..<?m}"
    then obtain k where k: "k < ?m" "x = int k" by auto
    then obtain n where "n < ?N" "np_argmax (?row n) = k" using sup by blast
    then show "x \<in> (\<lambda>n. int (np_argmax (?row n))) ` {..<?N}" using k by auto
  qed
  then show "set (map (\<lambda>row. int (np_argmax row)) (hstack_rows (probs st)))
           = int ` {..<length (spheres st)}"
    by (simp only: lab lsp)
qed

text \<open>
  Claim C8, as amended: for equally long inputs, strictly positive seediness,
  \<open>p_threshold < 1\<close> and any kernel whose values, evaluated at the points of the input with
  their own margins, are numbers not above 1 (never NaN or an infinity) and 1 at the seed
  itself, \<open>fit_predict2\<close> returns one label for every point, and the labels are either all
  \<open>-1\<close>, when no sphere was found, or exactly the integers \<open>0, \<dots>, m - 1\<close> for the number
  \<open>m\<close> of spheres, each of them the label of at least one point (the seed of sphere \<open>k\<close>
  carries label \<open>k\<close>: the earlier columns are at most \<open>p_threshold\<close> there, the later ones at
  most 1, and \<open>np.argmax\<close> returns the first maximum of the row).

  The kernel is a parameter and the hypotheses speak of its values, so the statement does
  not depend on how \<open>gaussian_kernel\<close> above squares the margin. A NaN in a column is
  excluded by hypothesis: \<open>np.argmax\<close> selects it, and the label of its sphere could then be
  taken from another one.
\<close>

theorem fit_predict2_labels_contiguous:
  assumes a: "is_argsort argsort"
    and le: "length embeddings = length seediness" and lm: "length margins = length seediness"
    and pos: "\<forall>s\<in>set seediness. 0 < s"
    and k1: "seed_is_one fitfunc embeddings margins"
    and ku: "kernel_in_unit fitfunc embeddings margins"
    and p: "p_threshold < 1"
  shows "\<exists>pred_labels spheres.
           fit_predict2 argsort embeddings seediness margins fitfunc s_threshold p_threshold
             = Some (Inr (pred_labels, spheres))
         \<and> length pred_labels = length embeddings
         \<and> (spheres = [] \<and> pred_labels = replicate (length embeddings) (- 1)
            \<or> spheres \<noteq> [] \<and> set pred_labels = int ` {..<length spheres})"
proof -
  let ?init = "fp2_init seediness :: 'a fp2_state"
  obtain st where l: "fp2_loop argsort embeddings seediness margins fitfunc s_threshold
        p_threshold ?init = Some (Inr st)"
    using fp2_loop_terminates [OF a le lm k1 p, of ?init]
    by (auto simp: fp2_init_def)
  have r: "fp2_reach argsort embeddings seediness margins fitfunc s_threshold p_threshold st"
    using fp2_loop_reach [OF l] fp2_reach.init by blast
  have inv: "fp2_inv seediness p_threshold st" using r by (rule fp2_reach_inv)
  obtain seeds where sd: "seeded fitfunc embeddings margins p_threshold st seeds"
    using fp2_reach_seeded [OF a pos r] by blast
  have lsp: "length (spheres st) = length (probs st)" using inv by (simp add: fp2_inv_def)
  show ?thesis
  proof (cases "probs st = []")
    case True
    then have "spheres st = []" using lsp by simp
    moreover have "fit_predict2 argsort embeddings seediness margins fitfunc s_threshold
        p_threshold = Some (Inr (replicate (length embeddings) (- 1), spheres st))"
      using True by (simp add: fit_predict2_def l)
    ultimately show ?thesis by simp
  next
    case False
    then have sne: "spheres st \<noteq> []" using lsp by auto
    let ?labels = "map (\<lambda>row. int (np_argmax row)) (hstack_rows (probs st))"
    have f: "fit_predict2 argsort embeddings seediness margins fitfunc s_threshold
        p_threshold = Some (Inr (?labels, spheres st))"
      using False by (simp add: fit_predict2_def l)
    note lab = labels_of_seeded [OF sd inv le k1 ku p False]
    show ?thesis using f lab sne by blast
  qed
qed

lemma scenario_kernel:
  "seed_is_one gaussian_kernel [[0, 0], [1 / 10, 0], [5, 5], [51 / 10, 5]]
     [1 / 2, 1 / 2, 1 / 2, 1 / 2]"
  "kernel_in_unit gaussian_kernel [[0, 0], [1 / 10, 0], [5, 5], [51 / 10, 5]]
     [1 / 2, 1 / 2, 1 / 2, 1 / 2]"
  by (simp_all add: seed_is_one_def kernel_in_unit_def less_Suc_eq numeral_eq_Suc
      gaussian_kernel_def sq_dist_def np_div_def all_conj_distrib)

theorem fit_predict2_labels_contiguous_witness:
  "is_argsort argsort_stable
   \<and> seed_is_one gaussian_kernel [[0, 0], [1 / 10, 0], [5, 5], [51 / 10, 5]]
        [1 / 2, 1 / 2, 1 / 2, 1 / 2]
   \<and> kernel_in_unit gaussian_kernel [[0, 0], [1 / 10, 0], [5, 5], [51 / 10, 5]]
        [1 / 2, 1 / 2, 1 / 2, 1 / 2]
   \<and> fit_predict2 argsort_stable [[0, 0], [1 / 10, 0], [5, 5], [51 / 10, 5]]
        [1, 9 / 10, 1, 9 / 10] [1 / 2, 1 / 2, 1 / 2, 1 / 2] gaussian_kernel 0 (1 / 2)
      = Some (Inr ([1, 1, 0, 0], [([5, 5], 1 / 2), ([0, 0], 1 / 2)]))
   \<and> set [1, 1, 0, 0 :: int] = int ` {..<length [([5, 5], 1 / 2 :: real), ([0 :: real, 0], 1 / 2)]}"
proof -
  let ?E = "[[0, 0], [1 / 10, 0], [5, 5], [51 / 10, 5]] :: matrix"
  let ?S = "[1, 9 / 10, 1, 9 / 10] :: real list"
  let ?M = "[1 / 2, 1 / 2, 1 / 2, 1 / 2] :: real list"
  have top: "hd (rev (argsort_stable ?S)) = 2" by (simp add: argsort_stable_def)
  have ev: "fit_predict2 argsort_stable ?E ?S ?M gaussian_kernel 0 (1 / 2)
      = Some (Inr ([1, 1, 0, 0], [([5, 5], 1 / 2), ([0, 0], 1 / 2)]))"
    by (rule scenario_from_2 [OF is_argsort_stable top])
  have h1: "length ?E = length ?S" and h2: "length ?M = length ?S"
    and h3: "\<forall>s\<in>set ?S. 0 < s" and h5: "(1 / 2 :: real) < 1"
    by simp_all
  obtain pl sp where t: "fit_predict2 argsort_stable ?E ?S ?M gaussian_kernel 0 (1 / 2)
      = Some (Inr (pl, sp))"
    "sp = [] \<and> pl = replicate (length ?E) (- 1) \<or> sp \<noteq> [] \<and> set pl = int ` {..<length sp}"
    using fit_predict2_labels_contiguous [OF is_argsort_stable h1 h2 h3 scenario_kernel h5, of 0]
    by blast
  have pl: "pl = [1, 1, 0, 0]" and sp: "sp = [([5, 5], 1 / 2), ([0, 0], 1 / 2)]"
    using t(1) ev by simp_all
  have "sp \<noteq> []" using sp by simp
  then have "set pl = int ` {..<length sp}" using t(2) by blast
  then have "set [1, 1, 0, 0 :: int] = int ` {..<length [([5, 5], 1 / 2 :: real), ([0 :: real, 0], 1 / 2)]}"
    unfolding pl sp .
  then show ?thesis using ev is_argsort_stable scenario_kernel by blast
qed

lemma gap_exps:
  "\<not> 1 / 2 < exp (- 8 :: real)" "\<not> 1 / 2 < exp (- 2 :: real)" "\<not> 1 / 2 < exp (- (81 / 50) :: real)"
  "1 / 2 < exp (- (81 / 200) :: real)" "1 / 2 < exp (- (81 / 800) :: real)"
  "1 / 2 < exp (- (121 / 800) :: real)"
  using exp_neg_small [of 8] exp_neg_small [of 2] exp_neg_small [of "81 / 50"]
    exp_neg_big [of "81 / 200"] exp_neg_big [of "81 / 800"] exp_neg_big [of "121 / 800"]
  by simp_all

lemma gap_k1: "gaussian_kernel [0] (1 / 2) [[0], [0], [2], [2], [2], [9 / 10]]
  = [Num 1, Num 1, Num (exp (- 8)), Num (exp (- 8)), Num (exp (- 8)), Num (exp (- (81 / 50)))]"
  by (simp add: gaussian_kernel_def sq_dist_def np_div_def power2_eq_square)

lemma gap_k2: "gaussian_kernel [0] 1 [[0], [0], [2], [2], [2], [9 / 10]]
  = [Num 1, Num 1, Num (exp (- 2)), Num (exp (- 2)), Num (exp (- 2)), Num (exp (- (81 / 200)))]"
  by (simp add: gaussian_kernel_def sq_dist_def np_div_def power2_eq_square)

lemma gap_k3: "gaussian_kernel [9 / 10] 2 [[0], [0], [2], [2], [2], [9 / 10]]
  = [Num (exp (- (81 / 800))), Num (exp (- (81 / 800))), Num (exp (- (121 / 800))),
     Num (exp (- (121 / 800))), Num (exp (- (121 / 800))), Num 1]"
  by (simp add: gaussian_kernel_def sq_dist_def np_div_def power2_eq_square)

text \<open>
  Claim C8 as stated holds for every input. With negative seediness it fails: on six points
  on a line, the second sphere is seeded at a point that the first sphere has already
  claimed (same place, wider margin), so its column wins no row; the third sphere wins the
  rest. The labels are \<open>[0, 0, 2, 2, 2, 2]\<close>: label 1 is attained by no point. The sort is
  the stable one, which picks the last of the tied zeroes.
\<close>

theorem fit_predict2_label_gap:
  "fit_predict2 argsort_stable [[0], [0], [2], [2], [2], [9 / 10]] [1, - 1, - 1, - 1, - 1, - 1]
     [1 / 2, 1, 1, 1, 1, 2] gaussian_kernel (- 5) (1 / 2)
   = Some (Inr ([0, 0, 2, 2, 2, 2], [([0], 1 / 2), ([0], 1), ([9 / 10], 2)]))"
proof -
  let ?E = "[[0], [0], [2], [2], [2], [9 / 10]] :: matrix"
  let ?S = "[1, - 1, - 1, - 1, - 1, - 1] :: real list"
  let ?M = "[1 / 2, 1, 1, 1, 1, 2] :: real list"
  let ?k1 = "[Num 1, Num 1, Num (exp (- 8)), Num (exp (- 8)), Num (exp (- 8)), Num (exp (- (81 / 50)))]"
  let ?k2 = "[Num 1, Num 1, Num (exp (- 2)), Num (exp (- 2)), Num (exp (- 2)), Num (exp (- (81 / 200)))]"
  let ?k3 = "[Num (exp (- (81 / 800))), Num (exp (- (81 / 800))), Num (exp (- (121 / 800))),
     Num (exp (- (121 / 800))), Num (exp (- (121 / 800))), Num 1]"
  let ?st1 = "\<lparr>probs = [?k1], spheres = [([0], 1 / 2 :: real)],
               seediness_copy = [0, 0, - 1, - 1, - 1, - 1], count = 2\<rparr>"
  let ?st2 = "\<lparr>probs = [?k1, ?k2], spheres = [([0], 1 / 2 :: real), ([0], 1)],
               seediness_copy = [0, 0, - 1, - 1, - 1, 0], count = 5\<rparr>"
  let ?st3 = "\<lparr>probs = [?k1, ?k2, ?k3], spheres = [([0], 1 / 2 :: real), ([0], 1), ([9 / 10], 2)],
               seediness_copy = [0, 0, 0, 0, 0, 0], count = 11\<rparr>"
  have b1: "fp2_body argsort_stable ?E ?S ?M gaussian_kernel (- 5) (1 / 2) (fp2_init ?S) = Inr (Some ?st1)"
    using gap_exps
    by (subst fp2_body_at [where i = 0])
       (simp_all add: fp2_init_def argsort_stable_def gap_k1 mask_assign_def)
  have b2: "fp2_body argsort_stable ?E ?S ?M gaussian_kernel (- 5) (1 / 2) ?st1 = Inr (Some ?st2)"
    using gap_exps
    by (subst fp2_body_at [where i = 1])
       (simp_all add: argsort_stable_def gap_k2 mask_assign_def)
  have b3: "fp2_body argsort_stable ?E ?S ?M gaussian_kernel (- 5) (1 / 2) ?st2 = Inr (Some ?st3)"
    using gap_exps
    by (subst fp2_body_at [where i = 5])
       (simp_all add: argsort_stable_def gap_k3 mask_assign_def)
  have "fp2_loop argsort_stable ?E ?S ?M gaussian_kernel (- 5) (1 / 2) (fp2_init ?S)
        = fp2_loop argsort_stable ?E ?S ?M gaussian_kernel (- 5) (1 / 2) ?st1"
    by (rule fp2_loop_continue [OF _ b1]) (simp add: fp2_init_def)
  also have "\<dots> = fp2_loop argsort_stable ?E ?S ?M gaussian_kernel (- 5) (1 / 2) ?st2"
    by (rule fp2_loop_continue [OF _ b2]) simp
  also have "\<dots> = fp2_loop argsort_stable ?E ?S ?M gaussian_kernel (- 5) (1 / 2) ?st3"
    by (rule fp2_loop_continue [OF _ b3]) simp
  also have "\<dots> = Some (Inr ?st3)"
    by (rule fp2_loop_exit) simp
  finally show ?thesis
    by (simp add: fit_predict2_def hstack_rows_def np_argmax_def upt_conv_Cons)
qed

end
